theory Spec2Isabelle
  imports Main
begin

text \<open>
  A model of \<^verbatim>\<open>git-helper-cli\<close> (package \<^verbatim>\<open>cmd\<close>): the ticket extractor, the commands
  create-commit, show-config and create-branch with their validators and prompts, and the
  configuration store. The commands talk to the user, to git and to the file system; in
  the model the user is a script of inputs, git is a function from a command line to what
  the process does, the file system is a value that is passed along, and what a command
  shows and runs is returned as a list of events.
\<close>

section \<open>Go strings and the library functions the program calls\<close>

text \<open>
  A Go \<^verbatim>\<open>string\<close> is a sequence of bytes and \<^verbatim>\<open>len\<close> counts bytes, so a Go string is
  modelled as a HOL \<^typ>\<open>string\<close> (a list of 8-bit characters) and \<^verbatim>\<open>len\<close> as
  \<^const>\<open>length\<close>.
\<close>

definition isUpper :: "char \<Rightarrow> bool" where
  "isUpper c = (65 \<le> (of_char c :: nat) \<and> (of_char c :: nat) \<le> 90)"

definition isLower :: "char \<Rightarrow> bool" where
  "isLower c = (97 \<le> (of_char c :: nat) \<and> (of_char c :: nat) \<le> 122)"

definition isDigit :: "char \<Rightarrow> bool" where
  "isDigit c = (48 \<le> (of_char c :: nat) \<and> (of_char c :: nat) \<le> 57)"

definition isLetter :: "char \<Rightarrow> bool" where
  "isLetter c = (isUpper c \<or> isLower c)"

text \<open>
  \<^verbatim>\<open>strings.Index(s, sep)\<close>: the byte offset of the first occurrence of \<^verbatim>\<open>sep\<close> in
  \<^verbatim>\<open>s\<close>, \<open>None\<close> for Go's \<^verbatim>\<open>-1\<close>.
\<close>

fun Index :: "string \<Rightarrow> string \<Rightarrow> nat option" where
  "Index [] sep = (if sep = [] then Some 0 else None)"
| "Index (c # cs) sep =
     (if take (length sep) (c # cs) = sep then Some 0
      else map_option Suc (Index cs sep))"

lemma Index_bound: "Index s sep = Some m \<Longrightarrow> m + length sep \<le> length s"
proof (induction s arbitrary: m)
  case Nil
  then show ?case by (simp split: if_splits)
next
  case (Cons c cs)
  show ?case
  proof (cases "take (length sep) (c # cs) = sep")
    case True
    then have "length (take (length sep) (c # cs)) = length sep" by simp
    then have "length sep \<le> length (c # cs)"
      by (simp del: length_Cons take_Suc_Cons)
    with True Cons.prems show ?thesis by simp
  next
    case False
    with Cons.prems obtain k where "Index cs sep = Some k" "m = Suc k" by auto
    with Cons.IH show ?thesis by fastforce
  qed
qed

text \<open>
  \<^verbatim>\<open>strings.Split(s, sep)\<close> for a non-empty separator, after the loop of the library's
  \<^verbatim>\<open>genSplit\<close>: cut at the first occurrence of \<^verbatim>\<open>sep\<close>, go on behind it, and end with
  what is left. With an empty separator Go explodes \<^verbatim>\<open>s\<close> into UTF-8 sequences; the
  program never does that, and the model leaves the case unspecified.
\<close>

function Split :: "string \<Rightarrow> string \<Rightarrow> string list" where
  "Split s sep =
     (if sep = [] then undefined
      else case Index s sep of
             None \<Rightarrow> [s]
           | Some m \<Rightarrow> take m s # Split (drop (m + length sep) s) sep)"
  by pat_completeness auto
termination
proof (relation "measure (\<lambda>(s, sep). length s)")
  show "wf (measure (\<lambda>(s, sep). length s))" by simp
next
  fix s sep :: string and m
  assume "sep \<noteq> []" "Index s sep = Some m"
  then have "m + length sep \<le> length s" "0 < length sep"
    by (auto dest: Index_bound)
  then have "length s - (m + length sep) < length s" by arith
  then show "((drop (m + length sep) s, sep), (s, sep)) \<in> measure (\<lambda>(s, sep). length s)"
    by simp
qed

declare Split.simps [simp del]

text \<open>
  \<^verbatim>\<open>strings.ReplaceAll(s, old, new)\<close> for a non-empty \<^verbatim>\<open>old\<close>: every non-overlapping
  occurrence of \<^verbatim>\<open>old\<close>, from the left, is replaced by \<^verbatim>\<open>new\<close>. (With an empty
  \<^verbatim>\<open>old\<close> Go inserts \<^verbatim>\<open>new\<close> at every rune boundary; unused here and unspecified.)
\<close>

function ReplaceAll :: "string \<Rightarrow> string \<Rightarrow> string \<Rightarrow> string" where
  "ReplaceAll s old new =
     (if old = [] then undefined
      else case Index s old of
             None \<Rightarrow> s
           | Some m \<Rightarrow> take m s @ new @ ReplaceAll (drop (m + length old) s) old new)"
  by pat_completeness auto
termination
proof (relation "measure (\<lambda>(s, old, new). length s)")
  show "wf (measure (\<lambda>(s, old, new). length s))" by simp
next
  fix s old new :: string and m
  assume "old \<noteq> []" "Index s old = Some m"
  then have "m + length old \<le> length s" "0 < length old"
    by (auto dest: Index_bound)
  then have "length s - (m + length old) < length s" by arith
  then show "((drop (m + length old) s, old, new), (s, old, new))
               \<in> measure (\<lambda>(s, old, new). length s)"
    by simp
qed

declare ReplaceAll.simps [simp del]

subsection \<open>Regular expressions\<close>

text \<open>
  The patterns of the program are anchored at both ends (\<^verbatim>\<open>^...$\<close>, and Go's \<^verbatim>\<open>$\<close>
  is the end of the text), so \<^verbatim>\<open>regexp.MatchString\<close> decides whether the whole string is
  in the language of the pattern between the anchors. The matcher takes derivatives.
  The classes \<^verbatim>\<open>[A-Za-z]\<close> and \<^verbatim>\<open>\d\<close> hold ASCII characters only, so matching bytes
  is matching runes.
\<close>

datatype rexp =
    REmpty
  | REps
  | RClass "char \<Rightarrow> bool"
  | RSeq rexp rexp
  | RAlt rexp rexp
  | RStar rexp

definition RPlus :: "rexp \<Rightarrow> rexp" where
  "RPlus r = RSeq r (RStar r)"

definition RChar :: "char \<Rightarrow> rexp" where
  "RChar c = RClass (\<lambda>x. x = c)"

fun nullable :: "rexp \<Rightarrow> bool" where
  "nullable REmpty = False"
| "nullable REps = True"
| "nullable (RClass p) = False"
| "nullable (RSeq r s) = (nullable r \<and> nullable s)"
| "nullable (RAlt r s) = (nullable r \<or> nullable s)"
| "nullable (RStar r) = True"

fun deriv :: "char \<Rightarrow> rexp \<Rightarrow> rexp" where
  "deriv c REmpty = REmpty"
| "deriv c REps = REmpty"
| "deriv c (RClass p) = (if p c then REps else REmpty)"
| "deriv c (RSeq r s) =
     (if nullable r then RAlt (RSeq (deriv c r) s) (deriv c s) else RSeq (deriv c r) s)"
| "deriv c (RAlt r s) = RAlt (deriv c r) (deriv c s)"
| "deriv c (RStar r) = RSeq (deriv c r) (RStar r)"

fun matches :: "rexp \<Rightarrow> string \<Rightarrow> bool" where
  "matches r [] = nullable r"
| "matches r (c # cs) = matches (deriv c r) cs"

text \<open>
  Go's \<^verbatim>\<open>error\<close> values as the program meets them: a message made by \<^verbatim>\<open>fmt.Errorf\<close>,
  a message that wraps another error with \<^verbatim>\<open>%w\<close>, a command that exited with a status
  other than 0 or could not be started, an error of a system call by its name, a syntax
  error of the JSON decoder, and the interrupt and the end of input at a prompt.
\<close>

datatype error =
    Errorf string
  | Wrapf string error
  | ExitError nat
  | ExecError
  | SyscallError string
  | SyntaxError
  | InterruptErr
  | EOF

text \<open>
  \<^verbatim>\<open>regexp.MatchString\<close> returns an error when the pattern does not compile. The patterns
  here are constants that compile, so the model always answers \<open>Inr\<close>; the caller's
  error branch is kept.
\<close>

definition MatchString :: "rexp \<Rightarrow> string \<Rightarrow> error + bool" where
  "MatchString pattern s = Inr (matches pattern s)"

text \<open>The pattern \<^verbatim>\<open>^[A-Za-z]+-\d+$\<close>.\<close>

definition ticketPattern :: rexp where
  "ticketPattern = RSeq (RPlus (RClass isLetter)) (RSeq (RChar CHR ''-'') (RPlus (RClass isDigit)))"

definition extractTicketFromBranch :: "string \<Rightarrow> error + string" where
  "extractTicketFromBranch branch =
     (let parts = Split branch ''/'' in
      if length parts < 1 then
        Inl (Errorf ''branch name does not contain a '/' separator'')
      else
        let ticket = parts ! (length parts - 1) in
        case MatchString ticketPattern ticket of
          Inl err \<Rightarrow> Inl err
        | Inr matched \<Rightarrow>
            if \<not> matched then
              Inl (Errorf (''extracted ticket ID '' @ [CHR 0x27] @ ticket @ [CHR 0x27]
                           @ '' does not match expected pattern''))
            else Inr ticket)"

subsection \<open>Case mapping and trimming\<close>

text \<open>
  \<^verbatim>\<open>strings.ToLower\<close>, \<^verbatim>\<open>strings.Title\<close> and \<^verbatim>\<open>strings.TrimSpace\<close> work on bytes as long
  as the string is ASCII and turn to the Unicode tables otherwise. The tables are not part
  of the program: what the library does with a string that has a byte from \<open>0x80\<close> on
  is a parameter. \<^verbatim>\<open>encoding/json\<close> is a parameter in the same way.
\<close>

record Config =
  Abbreviation :: string

record stdlib =
  unicodeToLower :: "string \<Rightarrow> string"
  unicodeTitle :: "string \<Rightarrow> string"
  unicodeTrim :: "string \<Rightarrow> string"
  unicodeTrimRight :: "string \<Rightarrow> string"
  jsonDecode :: "string \<Rightarrow> Config \<Rightarrow> Config \<times> error option"

definition isASCII :: "char \<Rightarrow> bool" where
  "isASCII c = ((of_char c :: nat) < 128)"

definition toLowerByte :: "char \<Rightarrow> char" where
  "toLowerByte c = (if isUpper c then char_of (of_char c + 32 :: nat) else c)"

definition toUpperByte :: "char \<Rightarrow> char" where
  "toUpperByte c = (if isLower c then char_of (of_char c - 32 :: nat) else c)"

definition ToLower :: "stdlib \<Rightarrow> string \<Rightarrow> string" where
  "ToLower lib s =
     (if list_all isASCII s then map toLowerByte s else unicodeToLower lib s)"

definition isSeparator :: "char \<Rightarrow> bool" where
  "isSeparator c = (\<not> (isDigit c \<or> isLower c \<or> isUpper c \<or> c = CHR ''_''))"

fun titleFrom :: "char \<Rightarrow> string \<Rightarrow> string" where
  "titleFrom prev [] = []"
| "titleFrom prev (c # cs) =
     (if isSeparator prev then toUpperByte c else c) # titleFrom c cs"

definition Title :: "stdlib \<Rightarrow> string \<Rightarrow> string" where
  "Title lib s =
     (if list_all isASCII s then titleFrom CHR '' '' s else unicodeTitle lib s)"

definition asciiSpace :: "char \<Rightarrow> bool" where
  "asciiSpace c = ((of_char c :: nat) \<in> {9, 10, 11, 12, 13, 32})"

definition TrimSpace :: "stdlib \<Rightarrow> string \<Rightarrow> string" where
  "TrimSpace lib s =
     (case dropWhile asciiSpace s of
        [] \<Rightarrow> []
      | c # cs \<Rightarrow>
          if \<not> isASCII c then unicodeTrim lib (c # cs)
          else (case dropWhile asciiSpace (rev (c # cs)) of
                  [] \<Rightarrow> []
                | d # ds \<Rightarrow>
                    if \<not> isASCII d then unicodeTrimRight lib (rev (d # ds))
                    else rev (d # ds)))"

section \<open>The outside world\<close>

subsection \<open>Processes\<close>

text \<open>
  What an external command does when it is run: it cannot be started, or it exits with a
  status after writing to its standard output. \<^verbatim>\<open>Run\<close> and \<^verbatim>\<open>Output\<close> of \<^verbatim>\<open>os/exec\<close>
  return \<^verbatim>\<open>nil\<close> exactly for status 0.
\<close>

datatype proc = NotStarted | Exited nat string

fun Run :: "proc \<Rightarrow> error option" where
  "Run NotStarted = Some ExecError"
| "Run (Exited n out) = (if n = 0 then None else Some (ExitError n))"

fun Output :: "proc \<Rightarrow> string \<times> error option" where
  "Output NotStarted = ([], Some ExecError)"
| "Output (Exited n out) = (out, if n = 0 then None else Some (ExitError n))"

subsection \<open>The terminal\<close>

text \<open>
  The user is a finite script of inputs; a prompt takes the inputs it needs from the front.
  What the program shows and does is recorded as a list of events, in order.
  A validator receives the answer as Go's \<^verbatim>\<open>interface{}\<close>.
\<close>

datatype answer = StringAns string | OptionAns string | BoolAns bool

datatype input = Typed string | Choose nat | YesNo bool | Interrupt

datatype event =
    Asked string
  | Got answer
  | Invalid error
  | Exec "string list"
  | Printed string

type_synonym 'a asked = "(error + 'a) \<times> event list \<times> input list"

text \<open>
  \<^verbatim>\<open>survey.AskOne\<close> on a \<^verbatim>\<open>Select\<close>: the user picks one of the options. An interrupt
  ends the prompt with \<^verbatim>\<open>terminal.InterruptErr\<close>, the end of the input with \<^verbatim>\<open>io.EOF\<close>;
  an input that the prompt cannot take (a pick outside the options, text at a menu) ends
  it as an interrupt does.
\<close>

fun askSelect :: "string \<Rightarrow> string list \<Rightarrow> input list \<Rightarrow> string asked" where
  "askSelect msg options [] = (Inl EOF, [Asked msg], [])"
| "askSelect msg options (Choose i # ins) =
     (if i < length options
      then (Inr (options ! i), [Asked msg, Got (OptionAns (options ! i))], ins)
      else (Inl InterruptErr, [Asked msg], ins))"
| "askSelect msg options (_ # ins) = (Inl InterruptErr, [Asked msg], ins)"

fun askConfirm :: "string \<Rightarrow> input list \<Rightarrow> bool asked" where
  "askConfirm msg [] = (Inl EOF, [Asked msg], [])"
| "askConfirm msg (YesNo b # ins) = (Inr b, [Asked msg, Got (BoolAns b)], ins)"
| "askConfirm msg (_ # ins) = (Inl InterruptErr, [Asked msg], ins)"

text \<open>
  \<^verbatim>\<open>survey.AskOne\<close> on an \<^verbatim>\<open>Input\<close> with a validator: a line that the validator rejects
  is answered with the validator's message and the prompt is shown again.
\<close>

fun askInput :: "(answer \<Rightarrow> error option) \<Rightarrow> string \<Rightarrow> input list \<Rightarrow> string asked" where
  "askInput validator msg [] = (Inl EOF, [Asked msg], [])"
| "askInput validator msg (Typed s # ins) =
     (case validator (StringAns s) of
        None \<Rightarrow> (Inr s, [Asked msg, Got (StringAns s)], ins)
      | Some err \<Rightarrow>
          (case askInput validator msg ins of
             (r, evs, ins') \<Rightarrow> (r, Asked msg # Invalid err # evs, ins')))"
| "askInput validator msg (_ # ins) = (Inl InterruptErr, [Asked msg], ins)"

text \<open>
  The shape \<^verbatim>\<open>if err := step(); err != nil { return err }\<close>: the rest of the command
  runs on the value and the remaining inputs, and its events follow those of the step.
\<close>

definition andThen ::
  "'a asked \<Rightarrow> ('a \<Rightarrow> input list \<Rightarrow> error option \<times> event list) \<Rightarrow> error option \<times> event list" where
  "andThen step rest =
     (case step of
        (Inl err, evs, ins) \<Rightarrow> (Some err, evs)
      | (Inr a, evs, ins) \<Rightarrow> (case rest a ins of (r, evs') \<Rightarrow> (r, evs @ evs')))"

section \<open>create-commit\<close>

definition maxCommitDescLength :: nat where
  "maxCommitDescLength = 50"

text \<open>\<^verbatim>\<open>getCurrentBranch\<close>; \<open>git\<close> says what a git command line does when run.\<close>

definition getCurrentBranch ::
  "stdlib \<Rightarrow> (string list \<Rightarrow> proc) \<Rightarrow> (error + string) \<times> event list" where
  "getCurrentBranch lib git =
     (let cmd = [''git'', ''rev-parse'', ''--abbrev-ref'', ''HEAD''] in
      case Output (git cmd) of
        (out, Some err) \<Rightarrow> (Inl (Wrapf ''failed to get current branch: '' err), [Exec cmd])
      | (out, None) \<Rightarrow> (Inr (TrimSpace lib out), [Exec cmd]))"

text \<open>The validator of the commit description (the closure passed to \<^verbatim>\<open>survey.WithValidator\<close>).\<close>

fun commitDescValidator :: "answer \<Rightarrow> error option" where
  "commitDescValidator (StringAns str) =
     (if length str = 0 then Some (Errorf ''commit description cannot be empty'')
      else if length str > maxCommitDescLength then
        Some (Errorf ''commit description too long (max 50 characters)'')
      else None)"
| "commitDescValidator _ = Some (Errorf ''invalid input'')"

definition firstMsg :: "string \<Rightarrow> string \<Rightarrow> string \<Rightarrow> string" where
  "firstMsg commitType product commitDesc =
     commitType @ ''('' @ product @ ''): '' @ commitDesc"

definition verb :: "stdlib \<Rightarrow> string \<Rightarrow> string" where
  "verb lib commitType =
     (if commitType = ''fix'' then ''Fixes''
      else if commitType = ''feat'' then ''Closes''
      else Title lib commitType)"

definition secondMsg :: "stdlib \<Rightarrow> string \<Rightarrow> string \<Rightarrow> string" where
  "secondMsg lib commitType ticketID = verb lib commitType @ '' '' @ ticketID"

definition stagedCheck :: "string list" where
  "stagedCheck = [''git'', ''diff'', ''--cached'', ''--quiet'']"

definition createCommitCmd ::
  "stdlib \<Rightarrow> (string list \<Rightarrow> proc) \<Rightarrow> input list \<Rightarrow> error option \<times> event list" where
  "createCommitCmd lib git ins =
     (if Run (git stagedCheck) = None then
        (Some (Errorf ''no staged changes found. Please stage your changes before committing''),
         [Exec stagedCheck])
      else
        andThen (Inr (), [Exec stagedCheck], ins) (\<lambda>_ ins.
        andThen (askSelect ''Select commit type:'' [''fix'', ''feat''] ins) (\<lambda>commitType ins.
        andThen (askSelect ''Select product:'' [''lego'', ''plec''] ins) (\<lambda>product ins.
        andThen (askInput commitDescValidator ''Enter a short commit description:'' ins)
          (\<lambda>commitDesc ins.
        andThen (case getCurrentBranch lib git of (r, evs) \<Rightarrow> (r, evs, ins)) (\<lambda>branch ins.
        andThen
          (case extractTicketFromBranch branch of
             Inl err \<Rightarrow>
               (Inl (Wrapf (''failed to extract JIRA ticket from branch '' @ [CHR 0x27] @ branch
                            @ [CHR 0x27] @ '': '') err), [], ins)
           | Inr ticketID \<Rightarrow> (Inr ticketID, [], ins)) (\<lambda>ticketID ins.
        let first = firstMsg commitType product commitDesc;
            second = secondMsg lib commitType ticketID in
        andThen
          (Inr (),
           [Printed ''\<newline>The following commit messages will be created:\<newline>'',
            Printed (''Message 1: '' @ first @ ''\<newline>''),
            Printed (''Message 2: '' @ second @ ''\<newline>'')], ins) (\<lambda>_ ins.
        andThen (askConfirm ''Do you want to proceed with this commit?'' ins) (\<lambda>confirm ins.
        if \<not> confirm then (None, [Printed ''Commit creation aborted.\<newline>''])
        else
          let gitCmd = [''git'', ''commit'', ''-m'', first, ''-m'', second] in
          case Run (git gitCmd) of
            Some err \<Rightarrow>
              (Some (Wrapf ''failed to create commit: '' err),
               [Printed ''Executing git commit...\<newline>'', Exec gitCmd])
          | None \<Rightarrow>
              (None,
               [Printed ''Executing git commit...\<newline>'', Exec gitCmd,
                Printed ''Commit created successfully!\<newline>'']))))))))))"

section \<open>The configuration store\<close>

subsection \<open>The file system\<close>

text \<open>
  A path is the list of its names from the root. The file system has the home directory
  of the user (if the environment tells), the directories and the files with their
  contents, and the paths that the process is refused (\<^verbatim>\<open>EACCES\<close>).
\<close>

type_synonym path = "string list"

record fs =
  home :: "path option"
  dirs :: "path list"
  files :: "(path \<times> string) list"
  denied :: "path list"

datatype handle = FileHandle string | DirHandle

definition isDir :: "fs \<Rightarrow> path \<Rightarrow> bool" where
  "isDir s p = (p = [] \<or> p \<in> set (dirs s))"

definition UserHomeDir :: "fs \<Rightarrow> error + path" where
  "UserHomeDir s = (case home s of None \<Rightarrow> Inl (Errorf ''$HOME is not defined'') | Some h \<Rightarrow> Inr h)"

definition Join :: "path \<Rightarrow> string \<Rightarrow> path" where
  "Join p name = p @ [name]"

definition Mkdir :: "fs \<Rightarrow> path \<Rightarrow> error option \<times> fs" where
  "Mkdir s p =
     (if p \<in> set (denied s) then (Some (SyscallError ''EACCES''), s)
      else if isDir s p \<or> map_of (files s) p \<noteq> None then (Some (SyscallError ''EEXIST''), s)
      else if \<not> isDir s (butlast p) then (Some (SyscallError ''ENOENT''), s)
      else (None, s\<lparr>dirs := p # dirs s\<rparr>))"

text \<open>
  \<^verbatim>\<open>os.MkdirAll\<close>: nothing to do for a directory, \<^verbatim>\<open>ENOTDIR\<close> for a file, and otherwise
  the parent first and then the directory itself.
\<close>

function MkdirAll :: "fs \<Rightarrow> path \<Rightarrow> error option \<times> fs" where
  "MkdirAll s p =
     (if isDir s p then (None, s)
      else if map_of (files s) p \<noteq> None then (Some (SyscallError ''ENOTDIR''), s)
      else case MkdirAll s (butlast p) of
             (Some err, s') \<Rightarrow> (Some err, s')
           | (None, s') \<Rightarrow> Mkdir s' p)"
  by pat_completeness auto
termination
  by (relation "measure (\<lambda>(s, p). length p)") (auto simp: isDir_def)

declare MkdirAll.simps [simp del]

definition Open :: "fs \<Rightarrow> path \<Rightarrow> error + handle" where
  "Open s p =
     (if p \<in> set (denied s) then Inl (SyscallError ''EACCES'')
      else if isDir s p then Inr DirHandle
      else case map_of (files s) p of
             None \<Rightarrow> Inl (SyscallError ''ENOENT'')
           | Some content \<Rightarrow> Inr (FileHandle content))"

text \<open>
  \<^verbatim>\<open>json.NewDecoder(file).Decode(&cfg)\<close>: reading a directory fails, the contents of a
  file go to the decoder of the library.
\<close>

fun Decode :: "stdlib \<Rightarrow> handle \<Rightarrow> Config \<Rightarrow> Config \<times> error option" where
  "Decode lib DirHandle cfg = (cfg, Some (SyscallError ''EISDIR''))"
| "Decode lib (FileHandle content) cfg = jsonDecode lib content cfg"

subsection \<open>configFilePath and loadConfig\<close>

definition configFilePath :: "fs \<Rightarrow> (error + path) \<times> fs" where
  "configFilePath s =
     (case UserHomeDir s of
        Inl err \<Rightarrow> (Inl err, s)
      | Inr homeDir \<Rightarrow>
          let configDir = Join homeDir ''.git-helper-cli'' in
          case MkdirAll s configDir of
            (Some err, s') \<Rightarrow> (Inl err, s')
          | (None, s') \<Rightarrow> (Inr (Join configDir ''config.json''), s'))"

definition loadConfig :: "stdlib \<Rightarrow> fs \<Rightarrow> (Config \<times> error option) \<times> fs" where
  "loadConfig lib s =
     (let cfg = \<lparr>Abbreviation = ''''\<rparr> in
      case configFilePath s of
        (Inl err, s') \<Rightarrow> ((cfg, Some err), s')
      | (Inr configPath, s') \<Rightarrow>
          (case Open s' configPath of
             Inl err \<Rightarrow> ((cfg, None), s')
           | Inr file \<Rightarrow> (Decode lib file cfg, s')))"

definition showConfigCmd :: "stdlib \<Rightarrow> fs \<Rightarrow> (error option \<times> event list) \<times> fs" where
  "showConfigCmd lib s =
     (case loadConfig lib s of
        ((cfg, Some err), s') \<Rightarrow> ((Some (Wrapf ''failed to load configuration: '' err), []), s')
      | ((cfg, None), s') \<Rightarrow>
          if Abbreviation cfg = '''' then
            ((None, [Printed (''No configuration found. Please run '' @ [CHR 0x27]
                              @ ''git-helper-cli config'' @ [CHR 0x27]
                              @ '' to set up your configuration.\<newline>'')]), s')
          else
            ((None, [Printed ''Current Configuration:\<newline>'',
                     Printed (''  Two-letter Abbreviation: '' @ Abbreviation cfg @ ''\<newline>'')]),
             s'))"

section \<open>create-branch\<close>

definition maxDescLength :: nat where
  "maxDescLength = 30"

text \<open>The three variables of the command that the prompts write.\<close>

record details =
  branchType :: string
  description :: string
  ticketID :: string

definition promptBranchType :: "input list \<Rightarrow> string asked" where
  "promptBranchType ins = askSelect ''Choose branch type:'' [''fix'', ''feat''] ins"

fun descriptionValidator :: "answer \<Rightarrow> error option" where
  "descriptionValidator (StringAns str) =
     (let formatted = ReplaceAll str '' '' ''-'' in
      if length formatted > maxDescLength then
        Some (Errorf ''description too long (max 30 characters after formatting)'')
      else if length formatted = 0 then Some (Errorf ''description cannot be empty'')
      else None)"
| "descriptionValidator _ = Some (Errorf ''invalid input'')"

definition promptDescription :: "input list \<Rightarrow> string asked" where
  "promptDescription ins =
     askInput descriptionValidator
       ''Enter a short branch description (spaces will be replaced with hyphens):'' ins"

fun ticketValidator :: "answer \<Rightarrow> error option" where
  "ticketValidator (StringAns str) =
     (case MatchString ticketPattern str of
        Inl err \<Rightarrow> Some err
      | Inr matched \<Rightarrow>
          if \<not> matched then Some (Errorf ''ticket ID must be in format ABC-123'') else None)"
| "ticketValidator _ = Some (Errorf ''invalid input'')"

definition promptTicketID :: "input list \<Rightarrow> string asked" where
  "promptTicketID ins =
     askInput ticketValidator ''Enter the JIRA Ticket ID (e.g., CPRE-11347):'' ins"

definition assembleBranchName :: "stdlib \<Rightarrow> Config \<Rightarrow> details \<Rightarrow> string" where
  "assembleBranchName lib cfg d =
     ToLower lib (Abbreviation cfg) @ ''-'' @ branchType d @ ''-''
       @ ToLower lib (description d) @ ''/'' @ ticketID d"

definition menuOptions :: "string list" where
  "menuOptions =
     [''Confirm and create branch'', ''Edit branch type'', ''Edit description'',
      ''Edit JIRA ticket ID'', ''Cancel'']"

text \<open>
  One turn of the review loop: the command returns, or goes round again with the
  details as they are now and the inputs that are left.
\<close>

datatype turn =
    Return "error option" "event list"
  | Again details "event list" "input list"

definition review :: "stdlib \<Rightarrow> (string list \<Rightarrow> proc) \<Rightarrow> Config \<Rightarrow> details \<Rightarrow> input list \<Rightarrow> turn" where
  "review lib git cfg d ins =
     (let branchName = assembleBranchName lib cfg d;
          shown = [Printed (''\<newline>Proposed branch name: '' @ branchName @ ''\<newline>'')] in
      case askSelect ''What would you like to do?'' menuOptions ins of
        (Inl err, evs, ins) \<Rightarrow> Return (Some err) (shown @ evs)
      | (Inr choice, evs, ins) \<Rightarrow>
          if choice = ''Confirm and create branch'' then
            (case askConfirm (''Create branch '' @ [CHR 0x27] @ branchName @ [CHR 0x27] @ ''?'') ins of
               (Inl err, evs', ins) \<Rightarrow> Return (Some err) (shown @ evs @ evs')
             | (Inr confirm, evs', ins) \<Rightarrow>
                 if confirm then
                   let cmdGit = [''git'', ''checkout'', ''-b'', branchName];
                       run = [Printed (''Executing: git checkout -b '' @ branchName @ ''\<newline>''),
                              Exec cmdGit] in
                   (case Run (git cmdGit) of
                      Some err \<Rightarrow>
                        Return (Some (Wrapf ''failed to create branch: '' err))
                          (shown @ evs @ evs' @ run)
                    | None \<Rightarrow>
                        Return None
                          (shown @ evs @ evs' @ run
                             @ [Printed ''Branch created and switched successfully!\<newline>'']))
                 else Again d (shown @ evs @ evs') ins)
          else if choice = ''Edit branch type'' then
            (case promptBranchType ins of
               (Inl err, evs', ins) \<Rightarrow> Return (Some err) (shown @ evs @ evs')
             | (Inr t, evs', ins) \<Rightarrow> Again (d\<lparr>branchType := t\<rparr>) (shown @ evs @ evs') ins)
          else if choice = ''Edit description'' then
            (case promptDescription ins of
               (Inl err, evs', ins) \<Rightarrow> Return (Some err) (shown @ evs @ evs')
             | (Inr str, evs', ins) \<Rightarrow>
                 Again (d\<lparr>description := ReplaceAll str '' '' ''-''\<rparr>) (shown @ evs @ evs') ins)
          else if choice = ''Edit JIRA ticket ID'' then
            (case promptTicketID ins of
               (Inl err, evs', ins) \<Rightarrow> Return (Some err) (shown @ evs @ evs')
             | (Inr t, evs', ins) \<Rightarrow> Again (d\<lparr>ticketID := t\<rparr>) (shown @ evs @ evs') ins)
          else if choice = ''Cancel'' then
            Return None (shown @ evs @ [Printed ''Aborting branch creation.\<newline>''])
          else Again d (shown @ evs) ins)"

lemma askSelect_inputs:
  "askSelect msg options ins = (Inr a, evs, ins') \<Longrightarrow> length ins' < length ins"
  by (cases "(msg, options, ins)" rule: askSelect.cases) (auto split: if_splits)

lemma askConfirm_inputs:
  "askConfirm msg ins = (r, evs, ins') \<Longrightarrow> length ins' \<le> length ins"
  by (cases "(msg, ins)" rule: askConfirm.cases) auto

lemma askInput_inputs:
  "askInput validator msg ins = (r, evs, ins') \<Longrightarrow> length ins' \<le> length ins"
proof (induction validator msg ins arbitrary: r evs ins' rule: askInput.induct)
  case (2 validator msg s ins)
  show ?case
  proof (cases "validator (StringAns s)")
    case None
    with "2.prems" show ?thesis by simp
  next
    case (Some err)
    obtain r0 evs0 ins0 where a: "askInput validator msg ins = (r0, evs0, ins0)"
      by (cases "askInput validator msg ins") auto
    with Some "2.prems" have "ins' = ins0" by simp
    with "2.IH"[OF Some a] show ?thesis by simp
  qed
qed auto

lemma review_inputs:
  assumes "review lib git cfg d ins = Again d' evs ins'"
  shows "length ins' < length ins"
proof -
  obtain r e1 ins1 where s: "askSelect ''What would you like to do?'' menuOptions ins = (r, e1, ins1)"
    by (cases "askSelect ''What would you like to do?'' menuOptions ins") auto
  show ?thesis
  proof (cases r)
    case (Inl err)
    with s assms show ?thesis by (simp add: review_def Let_def)
  next
    case (Inr choice)
    with s have lt: "length ins1 < length ins" by (auto dest: askSelect_inputs)
    from Inr s assms have "length ins' \<le> length ins1"
      unfolding review_def Let_def promptBranchType_def promptDescription_def promptTicketID_def
      by (auto split: if_splits prod.splits sum.splits option.splits
            dest: askConfirm_inputs askInput_inputs askSelect_inputs less_imp_le)
    with lt show ?thesis by simp
  qed
qed

function reviewLoop ::
  "stdlib \<Rightarrow> (string list \<Rightarrow> proc) \<Rightarrow> Config \<Rightarrow> details \<Rightarrow> input list \<Rightarrow> error option \<times> event list" where
  "reviewLoop lib git cfg d ins =
     (case review lib git cfg d ins of
        Return r evs \<Rightarrow> (r, evs)
      | Again d' evs ins' \<Rightarrow>
          (case reviewLoop lib git cfg d' ins' of (r, evs') \<Rightarrow> (r, evs @ evs')))"
  by pat_completeness auto
termination
  by (relation "measure (\<lambda>(lib, git, cfg, d, ins). length ins)") (auto dest: review_inputs)

declare reviewLoop.simps [simp del]

definition createBranchCmd ::
  "stdlib \<Rightarrow> (string list \<Rightarrow> proc) \<Rightarrow> fs \<Rightarrow> input list \<Rightarrow> (error option \<times> event list) \<times> fs" where
  "createBranchCmd lib git s ins =
     (case loadConfig lib s of
        ((cfg, Some err), s') \<Rightarrow> ((Some (Wrapf ''failed to load configuration: '' err), []), s')
      | ((cfg, None), s') \<Rightarrow>
          if Abbreviation cfg = '''' then
            ((Some (Errorf (''no configuration found. Please run '' @ [CHR 0x27]
                            @ ''git-helper-cli config'' @ [CHR 0x27]
                            @ '' to set your two-letter abbreviation'')), []), s')
          else
            (andThen (promptBranchType ins) (\<lambda>t ins.
             andThen (promptDescription ins) (\<lambda>str ins.
             andThen (promptTicketID ins) (\<lambda>ticket ins.
               reviewLoop lib git cfg
                 \<lparr>branchType = t, description = ReplaceAll str '' '' ''-'', ticketID = ticket\<rparr>
                 ins))),
             s'))"

section \<open>An environment for the examples\<close>

text \<open>
  The examples need a library to run with. This one leaves a string with non-ASCII bytes
  as it is, and its decoder knows one file: the record \<^verbatim>\<open>{"abbreviation": "ds"}\<close>;
  anything else is a syntax error that leaves the configuration as it was.
\<close>

definition dsRecord :: string where
  "dsRecord = ''{'' @ [CHR 0x22] @ ''abbreviation'' @ [CHR 0x22] @ '': '' @ [CHR 0x22] @ ''ds''
                @ [CHR 0x22] @ ''}''"

definition exampleLib :: stdlib where
  "exampleLib =
     \<lparr>unicodeToLower = (\<lambda>s. s), unicodeTitle = (\<lambda>s. s), unicodeTrim = (\<lambda>s. s),
      unicodeTrimRight = (\<lambda>s. s),
      jsonDecode = (\<lambda>content cfg.
        if content = dsRecord then (cfg\<lparr>Abbreviation := ''ds''\<rparr>, None)
        else (cfg, Some SyntaxError))\<rparr>"

text \<open>
  A git for the examples: something is staged, and the current branch is
  \<^verbatim>\<open>ds-fix-header/CLI-34343\<close>.
\<close>

definition exampleGit :: "string list \<Rightarrow> proc" where
  "exampleGit argv =
     (if argv = [''git'', ''diff'', ''--cached'', ''--quiet''] then Exited 1 []
      else if argv = [''git'', ''rev-parse'', ''--abbrev-ref'', ''HEAD'']
      then Exited 0 ''ds-fix-header/CLI-34343\<newline>''
      else Exited 0 [])"

text \<open>A file system for the examples, with the record of the user \<^verbatim>\<open>ds\<close> in place.\<close>

definition exampleFs :: fs where
  "exampleFs =
     \<lparr>home = Some [''home'', ''u''],
      dirs = [[''home''], [''home'', ''u''], [''home'', ''u'', ''.git-helper-cli'']],
      files = [([''home'', ''u'', ''.git-helper-cli'', ''config.json''], dsRecord)],
      denied = []\<rparr>"

text \<open>The same home directory before the program has ever run: no directory of its own, no record.\<close>

definition freshFs :: fs where
  "freshFs =
     \<lparr>home = Some [''home'', ''u''], dirs = [[''home''], [''home'', ''u'']], files = [],
      denied = []\<rparr>"

text \<open>The record is there, but the process is refused when it opens the file.\<close>

definition lockedFs :: fs where
  "lockedFs = exampleFs\<lparr>denied := [[''home'', ''u'', ''.git-helper-cli'', ''config.json'']]\<rparr>"

text \<open>The fresh home directory where making the directory of the program is refused.\<close>

definition refusedFs :: fs where
  "refusedFs = freshFs\<lparr>denied := [[''home'', ''u'', ''.git-helper-cli'']]\<rparr>"

text \<open>The fresh home directory when the environment does not tell where it is.\<close>

definition noHomeFs :: fs where
  "noHomeFs = freshFs\<lparr>home := None\<rparr>"

text \<open>A home directory that is known but has yet to be made.\<close>

definition bareFs :: fs where
  "bareFs = \<lparr>home = Some [''home'', ''u''], dirs = [], files = [], denied = []\<rparr>"

section \<open>The ticket as the specification words it\<close>

text \<open>The final segment of a name: what stands behind its last \<open>/\<close>.\<close>

definition final_segment :: "string \<Rightarrow> string" where
  "final_segment s = rev (takeWhile (\<lambda>x. x \<noteq> CHR ''/'') (rev s))"

text \<open>
  The words of the specification: one or more letters, a hyphen, one or more digits.
\<close>

definition ticket_shaped :: "string \<Rightarrow> bool" where
  "ticket_shaped s \<longleftrightarrow>
     (\<exists>ls ds. s = ls @ ''-'' @ ds \<and> ls \<noteq> [] \<and> ds \<noteq> [] \<and>
              (\<forall>c \<in> set ls. isLetter c) \<and> (\<forall>c \<in> set ds. isDigit c))"

section \<open>The description validator as the specification words it\<close>

text \<open>
  The specification gives the limits in characters. A string from the terminal is UTF-8,
  where a character is one byte that starts it and up to three bytes that continue it
  (\<open>0x80\<close> to \<open>0xBF\<close>); the characters of a string are counted by the bytes that start
  one.
\<close>

definition isContinuation :: "char \<Rightarrow> bool" where
  "isContinuation c = (128 \<le> (of_char c :: nat) \<and> (of_char c :: nat) < 192)"

definition characters :: "string \<Rightarrow> nat" where
  "characters s = length (filter (\<lambda>c. \<not> isContinuation c) s)"

text \<open>
  \<^verbatim>\<open>validateDescription(raw, maxLen)\<close> of the specification: each space becomes a
  hyphen, and the result is rejected (\<open>None\<close>) when it is empty or has more than
  \<^verbatim>\<open>maxLen\<close> characters. The validators of the program are compared with it below.
\<close>

definition validateDescription_spec :: "string \<Rightarrow> nat \<Rightarrow> string option" where
  "validateDescription_spec raw maxLen =
     (let normalized = map (\<lambda>c. if c = CHR '' '' then CHR ''-'' else c) raw in
      if normalized = [] \<or> characters normalized > maxLen then None else Some normalized)"

section \<open>Notions for the review loop\<close>

text \<open>The events that run an external command.\<close>

fun isExec :: "event \<Rightarrow> bool" where
  "isExec (Exec argv) = True"
| "isExec _ = False"

text \<open>
  What is seen when a branch is created: the choice of \<^verbatim>\<open>Confirm and create branch\<close> at
  the menu, the question whether to create the branch with the answer yes, and then the
  announcement and the run of \<^verbatim>\<open>git checkout -b\<close>.
\<close>

definition creation :: "string \<Rightarrow> event list" where
  "creation name =
     [Asked ''What would you like to do?'', Got (OptionAns ''Confirm and create branch''),
      Asked (''Create branch '' @ [CHR 0x27] @ name @ [CHR 0x27] @ ''?''), Got (BoolAns True),
      Printed (''Executing: git checkout -b '' @ name @ ''\<newline>''),
      Exec [''git'', ''checkout'', ''-b'', name]]"

text \<open>The line that opens every turn of the loop.\<close>

definition proposed :: "stdlib \<Rightarrow> Config \<Rightarrow> details \<Rightarrow> event" where
  "proposed lib cfg d =
     Printed (''\<newline>Proposed branch name: '' @ assembleBranchName lib cfg d @ ''\<newline>'')"


section \<open>Notions for the file system\<close>

text \<open>
  What \<^verbatim>\<open>MkdirAll\<close> on a path leaves alone and what it may add: files, refusals and the
  home directory stay, every directory stays, and a directory that is new is no longer
  than the path.
\<close>

definition grown :: "fs \<Rightarrow> path \<Rightarrow> fs \<Rightarrow> bool" where
  "grown s p s' \<longleftrightarrow>
     files s' = files s \<and> denied s' = denied s \<and> home s' = home s
     \<and> set (dirs s) \<subseteq> set (dirs s')
     \<and> (\<forall>q \<in> set (dirs s'). q \<in> set (dirs s) \<or> length q \<le> length p)"

section \<open>What the library functions compute\<close>

subsection \<open>What the matcher decides\<close>

definition conc :: "string set \<Rightarrow> string set \<Rightarrow> string set" where
  "conc A B = {u @ v | u v. u \<in> A \<and> v \<in> B}"

inductive_set star :: "string set \<Rightarrow> string set" for A :: "string set" where
  star_nil: "[] \<in> star A"
| star_app: "u \<in> A \<Longrightarrow> v \<in> star A \<Longrightarrow> u @ v \<in> star A"

lemma concI: "u \<in> A \<Longrightarrow> v \<in> B \<Longrightarrow> u @ v \<in> conc A B"
  unfolding conc_def by blast

fun lang :: "rexp \<Rightarrow> string set" where
  "lang REmpty = {}"
| "lang REps = {[]}"
| "lang (RClass p) = {[c] | c. p c}"
| "lang (RSeq r s) = conc (lang r) (lang s)"
| "lang (RAlt r s) = lang r \<union> lang s"
| "lang (RStar r) = star (lang r)"

lemma nullable_lang: "nullable r \<longleftrightarrow> [] \<in> lang r"
  by (induction r) (auto simp: conc_def intro: star_nil)

lemma conc_left_quotient:
  "{w. c # w \<in> conc A B} = conc {w. c # w \<in> A} B \<union> (if [] \<in> A then {w. c # w \<in> B} else {})"
  unfolding conc_def by (auto simp: Cons_eq_append_conv)

lemma star_cons_split:
  assumes "w \<in> star A" "w = c # x"
  shows "\<exists>u v. x = u @ v \<and> c # u \<in> A \<and> v \<in> star A"
  using assms
proof (induction arbitrary: x rule: star.induct)
  case star_nil
  then show ?case by simp
next
  case (star_app u v)
  show ?case
  proof (cases u)
    case Nil
    with star_app show ?thesis by simp
  next
    case (Cons a u')
    with star_app.prems star_app.hyps show ?thesis by auto
  qed
qed

lemma star_left_quotient: "{w. c # w \<in> star A} = conc {w. c # w \<in> A} (star A)"
proof (rule set_eqI, rule iffI)
  fix x assume "x \<in> {w. c # w \<in> star A}"
  then have "c # x \<in> star A" by simp
  from star_cons_split[OF this refl] show "x \<in> conc {w. c # w \<in> A} (star A)"
    by (auto simp: conc_def)
next
  fix x assume "x \<in> conc {w. c # w \<in> A} (star A)"
  then obtain u v where "x = u @ v" "c # u \<in> A" "v \<in> star A"
    by (auto simp: conc_def)
  then have "(c # u) @ v \<in> star A" by (blast intro: star_app)
  with \<open>x = u @ v\<close> show "x \<in> {w. c # w \<in> star A}" by simp
qed

lemma lang_deriv: "lang (deriv c r) = {w. c # w \<in> lang r}"
proof (induction r)
  case (RSeq r s)
  then show ?case by (simp add: conc_left_quotient nullable_lang)
next
  case (RStar r)
  then show ?case by (simp add: star_left_quotient)
qed auto

lemma matches_lang: "matches r s \<longleftrightarrow> s \<in> lang r"
  by (induction s arbitrary: r) (simp_all add: nullable_lang lang_deriv)

lemma star_class: "star {[c] | c. p c} = {w. \<forall>c \<in> set w. p c}"
proof (rule set_eqI, rule iffI)
  fix w assume "w \<in> star {[c] | c. p c}"
  then show "w \<in> {w. \<forall>c \<in> set w. p c}"
    by (induction rule: star.induct) auto
next
  fix w assume "w \<in> {w. \<forall>c \<in> set w. p c}"
  then have "\<forall>c \<in> set w. p c" by simp
  then show "w \<in> star {[c] | c. p c}"
  proof (induction w)
    case Nil
    show ?case by (rule star_nil)
  next
    case (Cons a w)
    then have "[a] \<in> {[c] | c. p c}" "w \<in> star {[c] | c. p c}" by auto
    then have "[a] @ w \<in> star {[c] | c. p c}" by (rule star_app)
    then show ?case by simp
  qed
qed

lemma lang_plus_class: "lang (RPlus (RClass p)) = {w. w \<noteq> [] \<and> (\<forall>c \<in> set w. p c)}"
proof (rule set_eqI, rule iffI)
  fix w assume "w \<in> lang (RPlus (RClass p))"
  then show "w \<in> {w. w \<noteq> [] \<and> (\<forall>c \<in> set w. p c)}"
    unfolding RPlus_def by (auto simp: conc_def star_class)
next
  fix w assume "w \<in> {w. w \<noteq> [] \<and> (\<forall>c \<in> set w. p c)}"
  then obtain a x where w: "w = [a] @ x" and "p a" "\<forall>c \<in> set x. p c"
    by (cases w) auto
  then have "[a] \<in> lang (RClass p)" "x \<in> lang (RStar (RClass p))"
    by (simp_all add: star_class)
  then have "[a] @ x \<in> conc (lang (RClass p)) (lang (RStar (RClass p)))"
    by (rule concI)
  with w show "w \<in> lang (RPlus (RClass p))"
    unfolding RPlus_def by simp
qed

lemma matches_ticketPattern: "matches ticketPattern s \<longleftrightarrow> ticket_shaped s"
  unfolding matches_lang ticketPattern_def ticket_shaped_def
  by (auto simp: lang_plus_class conc_def RChar_def)

subsection \<open>What Split returns for a one-byte separator\<close>

lemma Index_byte:
  "Index s [c] = (if c \<in> set s then Some (length (takeWhile (\<lambda>x. x \<noteq> c) s)) else None)"
  by (induction s) auto

lemma Split_not_Nil: "sep \<noteq> [] \<Longrightarrow> Split s sep \<noteq> []"
  by (subst Split.simps) (simp split: option.split)

lemma takeWhile_stop: "\<not> P c \<Longrightarrow> takeWhile P (xs @ c # ys) = takeWhile P xs"
  by (induction xs) auto

lemma dropWhile_byte:
  "c \<in> set s \<Longrightarrow>
   dropWhile (\<lambda>x. x \<noteq> c) s = c # drop (Suc (length (takeWhile (\<lambda>x. x \<noteq> c) s))) s"
  by (induction s) auto

lemma last_Split_byte: "last (Split s [c]) = rev (takeWhile (\<lambda>x. x \<noteq> c) (rev s))"
proof (induction s "[c]" rule: Split.induct)
  case (1 s)
  show ?case
  proof (cases "c \<in> set s")
    case False
    then have sp: "Split s [c] = [s]"
      by (subst Split.simps) (simp add: Index_byte)
    from False have "takeWhile (\<lambda>x. x \<noteq> c) (rev s) = rev s"
      by (intro takeWhile_eq_all_conv[THEN iffD2]) auto
    then have tw: "rev (takeWhile (\<lambda>x. x \<noteq> c) (rev s)) = s"
      by (simp only: rev_rev_ident)
    show ?thesis unfolding sp tw by simp
  next
    case True
    let ?m = "length (takeWhile (\<lambda>x. x \<noteq> c) s)"
    let ?rest = "drop (?m + length [c]) s"
    from True have idx: "Index s [c] = Some ?m" by (simp add: Index_byte)
    then have sp: "Split s [c] = take ?m s # Split ?rest [c]"
      by (subst Split.simps) simp
    have ih: "last (Split ?rest [c]) = rev (takeWhile (\<lambda>x. x \<noteq> c) (rev ?rest))"
      using "1.hyps"[OF _ idx] by simp
    from True have dw: "dropWhile (\<lambda>x. x \<noteq> c) s = c # ?rest"
      by (simp add: dropWhile_byte)
    have "s = takeWhile (\<lambda>x. x \<noteq> c) s @ c # ?rest"
      using takeWhile_dropWhile_id[of "\<lambda>x. x \<noteq> c" s] dw by simp
    then have "rev s = rev (takeWhile (\<lambda>x. x \<noteq> c) s @ c # ?rest)"
      by simp
    then have "rev s = rev ?rest @ c # rev (takeWhile (\<lambda>x. x \<noteq> c) s)"
      by (simp only: rev_append rev.simps append.assoc append_Cons append_Nil)
    then have "takeWhile (\<lambda>x. x \<noteq> c) (rev s) = takeWhile (\<lambda>x. x \<noteq> c) (rev ?rest)"
      by (simp only: takeWhile_stop[of "\<lambda>x. x \<noteq> c" c, simplified])
    with ih sp Split_not_Nil[of "[c]" ?rest] show ?thesis by simp
  qed
qed

section \<open>The ticket extractor\<close>

lemma Split_parts: "\<not> length (Split branch ''/'') < 1"
  using Split_not_Nil[of "''/''" branch] by (cases "Split branch ''/''") auto

lemma extractTicketFromBranch_last:
  "extractTicketFromBranch branch =
     (let ticket = last (Split branch ''/'') in
      if matches ticketPattern ticket then Inr ticket
      else Inl (Errorf (''extracted ticket ID '' @ [CHR 0x27] @ ticket @ [CHR 0x27]
                           @ '' does not match expected pattern'')))"
proof -
  have ne: "Split branch ''/'' \<noteq> []" by (rule Split_not_Nil) simp
  then have "Split branch ''/'' ! (length (Split branch ''/'') - 1) = last (Split branch ''/'')"
    by (simp add: last_conv_nth)
  with Split_parts[of branch] show ?thesis
    unfolding extractTicketFromBranch_def MatchString_def Let_def by simp
qed

text \<open>
  Claim C3. For every branch name, \<^verbatim>\<open>extractTicketFromBranch\<close> takes what stands behind
  the last \<open>/\<close> of the name (the whole name when it has none) as the candidate, returns
  the candidate unchanged when it is one or more letters, a hyphen and one or more digits,
  and fails with the pattern-mismatch error otherwise. The three examples of the
  specification come out as it says.
\<close>

theorem extractTicket_final_segment:
  "extractTicketFromBranch branch =
     (if ticket_shaped (final_segment branch) then Inr (final_segment branch)
      else Inl (Errorf (''extracted ticket ID '' @ [CHR 0x27] @ final_segment branch @ [CHR 0x27]
                           @ '' does not match expected pattern'')))
   \<and> extractTicketFromBranch ''feature/CPRE-123'' = Inr ''CPRE-123''
   \<and> extractTicketFromBranch ''CPRE-123'' = Inr ''CPRE-123''
   \<and> extractTicketFromBranch ''feature/bad ticket'' =
       Inl (Errorf (''extracted ticket ID '' @ [CHR 0x27] @ ''bad ticket'' @ [CHR 0x27]
                           @ '' does not match expected pattern''))"
proof (intro conjI)
  show "extractTicketFromBranch branch =
     (if ticket_shaped (final_segment branch) then Inr (final_segment branch)
      else Inl (Errorf (''extracted ticket ID '' @ [CHR 0x27] @ final_segment branch @ [CHR 0x27]
                           @ '' does not match expected pattern'')))"
    unfolding extractTicketFromBranch_last Let_def final_segment_def
      last_Split_byte matches_ticketPattern ..
  show "extractTicketFromBranch ''feature/CPRE-123'' = Inr ''CPRE-123''" by code_simp
  show "extractTicketFromBranch ''CPRE-123'' = Inr ''CPRE-123''" by code_simp
  show "extractTicketFromBranch ''feature/bad ticket'' =
       Inl (Errorf (''extracted ticket ID '' @ [CHR 0x27] @ ''bad ticket'' @ [CHR 0x27]
                           @ '' does not match expected pattern''))" by code_simp
qed

text \<open>The theorem at a name with two separators, and at one that ends in a separator.\<close>

theorem extractTicket_final_segment_witness:
  "ticket_shaped (final_segment ''fix/ab/XY-7'')
   \<and> extractTicketFromBranch ''fix/ab/XY-7'' = Inr ''XY-7''
   \<and> \<not> ticket_shaped (final_segment ''XY-7/'')
   \<and> extractTicketFromBranch ''XY-7/'' =
       Inl (Errorf (''extracted ticket ID '' @ [CHR 0x27] @ [CHR 0x27]
                           @ '' does not match expected pattern''))"
proof -
  have fs: "final_segment ''fix/ab/XY-7'' = ''XY-7''" "final_segment ''XY-7/'' = []"
    by (simp_all add: final_segment_def)
  have a: "ticket_shaped ''XY-7''"
    unfolding matches_ticketPattern[symmetric] by code_simp
  have b: "\<not> ticket_shaped []"
    unfolding matches_ticketPattern[symmetric] by code_simp
  from a b fs extractTicket_final_segment[of "''fix/ab/XY-7''"]
    extractTicket_final_segment[of "''XY-7/''"]
  show ?thesis by simp
qed

text \<open>
  Claim C10. The test \<^verbatim>\<open>len(parts) < 1\<close> is false for every branch name, because the
  split on \<open>/\<close> has at least one segment; so the error about the missing separator is
  never returned, and the function returns the last segment when the pattern matches it
  and the pattern-mismatch error when it does not.
\<close>

theorem separator_error_unreachable:
  "\<not> length (Split branch ''/'') < 1
   \<and> extractTicketFromBranch branch
       \<noteq> Inl (Errorf ''branch name does not contain a '/' separator'')
   \<and> (extractTicketFromBranch branch = Inr (last (Split branch ''/''))
        \<and> matches ticketPattern (last (Split branch ''/''))
      \<or> extractTicketFromBranch branch =
          Inl (Errorf (''extracted ticket ID '' @ [CHR 0x27] @ last (Split branch ''/'')
                        @ [CHR 0x27] @ '' does not match expected pattern''))
        \<and> \<not> matches ticketPattern (last (Split branch ''/'')))"
  using Split_parts[of branch]
  by (simp add: extractTicketFromBranch_last Let_def)

text \<open>The theorem at the empty name and at a name without a separator.\<close>

theorem separator_error_unreachable_witness:
  "\<not> length (Split [] ''/'') < 1
   \<and> extractTicketFromBranch [] =
          Inl (Errorf (''extracted ticket ID '' @ [CHR 0x27]
                        @ [CHR 0x27] @ '' does not match expected pattern''))
   \<and> extractTicketFromBranch ''main'' =
          Inl (Errorf (''extracted ticket ID '' @ [CHR 0x27] @ ''main''
                        @ [CHR 0x27] @ '' does not match expected pattern''))"
proof -
  have s: "Split [] ''/'' = [[]]" "Split ''main'' ''/'' = [''main'']" by code_simp+
  have m: "\<not> matches ticketPattern []" "\<not> matches ticketPattern ''main''" by code_simp+
  from s m separator_error_unreachable[of "[]"] separator_error_unreachable[of "''main''"]
  show ?thesis by simp
qed

section \<open>create-commit: the guard for staged changes\<close>

lemma andThen_Some:
  "andThen step rest = (Some e, evs) \<Longrightarrow>
   (\<exists>ins. step = (Inl e, evs, ins)) \<or>
   (\<exists>a ev1 ins ev2. step = (Inr a, ev1, ins) \<and> rest a ins = (Some e, ev2) \<and> evs = ev1 @ ev2)"
  unfolding andThen_def by (auto split: prod.splits sum.splits)

lemma askSelect_error: "askSelect msg options ins = (Inl e, evs, ins') \<Longrightarrow> e = EOF \<or> e = InterruptErr"
  by (cases "(msg, options, ins)" rule: askSelect.cases) (auto split: if_splits)

lemma askConfirm_error: "askConfirm msg ins = (Inl e, evs, ins') \<Longrightarrow> e = EOF \<or> e = InterruptErr"
  by (cases "(msg, ins)" rule: askConfirm.cases) auto

lemma askInput_error: "askInput v msg ins = (Inl e, evs, ins') \<Longrightarrow> e = EOF \<or> e = InterruptErr"
proof (induction v msg ins arbitrary: evs ins' rule: askInput.induct)
  case (2 validator msg s ins)
  then show ?case by (auto split: option.splits prod.splits)
qed auto

lemma askSelect_hd: "\<exists>evs. fst (snd (askSelect msg options ins)) = Asked msg # evs"
  by (cases "(msg, options, ins)" rule: askSelect.cases) auto

lemma createCommitCmd_no_Errorf:
  assumes "Run (git stagedCheck) \<noteq> None"
  shows "fst (createCommitCmd lib git ins) \<noteq> Some (Errorf m)"
proof
  assume a: "fst (createCommitCmd lib git ins) = Some (Errorf m)"
  then obtain evs where "createCommitCmd lib git ins = (Some (Errorf m), evs)"
    by (cases "createCommitCmd lib git ins") auto
  with assms show False
    unfolding createCommitCmd_def getCurrentBranch_def Let_def
    apply (simp split: if_splits)
    apply (auto dest!: andThen_Some dest: askSelect_error askConfirm_error askInput_error
        split: prod.splits sum.splits option.splits if_splits)
    done
qed

lemma createCommitCmd_first_prompt:
  assumes "Run (git stagedCheck) \<noteq> None"
  shows "take 2 (snd (createCommitCmd lib git ins)) = [Exec stagedCheck, Asked ''Select commit type:'']"
proof -
  obtain r evs ins' where s: "askSelect ''Select commit type:'' [''fix'', ''feat''] ins = (r, evs, ins')"
    by (cases "askSelect ''Select commit type:'' [''fix'', ''feat''] ins") auto
  with askSelect_hd[of "''Select commit type:''" "[''fix'', ''feat'']" ins]
  obtain evs' where e: "evs = Asked ''Select commit type:'' # evs'" by auto
  show ?thesis
    using assms s e
    unfolding createCommitCmd_def
    by (cases r) (simp_all add: andThen_def split: prod.splits)
qed

text \<open>
  Claim C6. When the check for staged changes exits with status 0 (nothing is staged),
  create-commit returns the error at once: whatever the user would type, the only thing
  that has happened is the run of the check itself; no prompt is shown and no other
  command is run.
\<close>

theorem no_staged_changes_fails_first:
  "git stagedCheck = Exited 0 out \<Longrightarrow>
   createCommitCmd lib git ins =
     (Some (Errorf ''no staged changes found. Please stage your changes before committing''),
      [Exec [''git'', ''diff'', ''--cached'', ''--quiet'']])"
  by (simp add: createCommitCmd_def stagedCheck_def)

text \<open>The theorem with a user who would have answered every prompt.\<close>

theorem no_staged_changes_fails_first_witness:
  "createCommitCmd exampleLib (\<lambda>argv. Exited 0 [])
       [Choose 0, Choose 1, Typed ''typo in header'', YesNo True] =
     (Some (Errorf ''no staged changes found. Please stage your changes before committing''),
      [Exec [''git'', ''diff'', ''--cached'', ''--quiet'']])"
  using no_staged_changes_fails_first[of "\<lambda>argv. Exited 0 []" "[]" exampleLib
      "[Choose 0, Choose 1, Typed ''typo in header'', YesNo True]"]
  by simp

text \<open>
  Claim C8. The error about staged changes is returned exactly when the check exits with
  status 0. Every other outcome of the check (any other exit status, or git that cannot
  be started) counts as "something is staged": the command goes on to its first prompt.
\<close>

theorem staged_guard_only_exit_zero:
  "(fst (createCommitCmd lib git ins) =
      Some (Errorf ''no staged changes found. Please stage your changes before committing''))
     = (\<exists>out. git stagedCheck = Exited 0 out)
   \<and> ((\<forall>out. git stagedCheck \<noteq> Exited 0 out) \<longrightarrow>
        take 2 (snd (createCommitCmd lib git ins)) =
          [Exec [''git'', ''diff'', ''--cached'', ''--quiet''], Asked ''Select commit type:''])"
proof -
  have run: "(Run (git stagedCheck) = None) = (\<exists>out. git stagedCheck = Exited 0 out)"
    by (cases "git stagedCheck") auto
  show ?thesis
  proof (cases "Run (git stagedCheck) = None")
    case True
    then have "fst (createCommitCmd lib git ins) =
      Some (Errorf ''no staged changes found. Please stage your changes before committing'')"
      by (simp add: createCommitCmd_def)
    with True run show ?thesis by auto
  next
    case False
    have "fst (createCommitCmd lib git ins) \<noteq>
      Some (Errorf ''no staged changes found. Please stage your changes before committing'')"
      using False by (rule createCommitCmd_no_Errorf)
    moreover have "take 2 (snd (createCommitCmd lib git ins)) =
        [Exec stagedCheck, Asked ''Select commit type:'']"
      using False by (rule createCommitCmd_first_prompt)
    moreover from False run have "\<forall>out. git stagedCheck \<noteq> Exited 0 out" by simp
    ultimately show ?thesis by (simp add: stagedCheck_def)
  qed
qed

text \<open>The theorem where git exits with 129, as it does outside a repository.\<close>

theorem staged_guard_only_exit_zero_witness:
  "(\<forall>out. (\<lambda>argv. Exited 129 ''usage: git diff --no-index'') stagedCheck \<noteq> Exited 0 out)
   \<and> createCommitCmd exampleLib (\<lambda>argv. Exited 129 ''usage: git diff --no-index'') [Choose 1] \<noteq>
       (Some (Errorf ''no staged changes found. Please stage your changes before committing''),
        [Exec [''git'', ''diff'', ''--cached'', ''--quiet'']])
   \<and> take 2 (snd (createCommitCmd exampleLib (\<lambda>argv. Exited 129 ''usage: git diff --no-index'') [Choose 1])) =
          [Exec [''git'', ''diff'', ''--cached'', ''--quiet''], Asked ''Select commit type:'']"
  using staged_guard_only_exit_zero[of exampleLib "\<lambda>argv. Exited 129 ''usage: git diff --no-index''" "[Choose 1]"]
  by auto

section \<open>Title and a run of create-commit\<close>

lemma isLetter_ASCII: "isLetter c \<Longrightarrow> isASCII c"
  by (auto simp: isLetter_def isUpper_def isLower_def isASCII_def)

lemma isLetter_not_separator: "isLetter c \<Longrightarrow> \<not> isSeparator c"
  by (auto simp: isLetter_def isSeparator_def)

lemma titleFrom_letters:
  "\<not> isSeparator prev \<Longrightarrow> list_all isLetter cs \<Longrightarrow> titleFrom prev cs = cs"
  by (induction cs arbitrary: prev) (auto simp: isLetter_not_separator)

lemma Title_word:
  assumes "list_all isLetter (c # cs)"
  shows "Title lib (c # cs) = toUpperByte c # cs"
proof -
  from assms have "list_all isASCII (c # cs)"
    by (auto simp: list_all_iff isLetter_ASCII)
  moreover have "isSeparator CHR '' ''"
    by (simp add: isSeparator_def isDigit_def isLower_def isUpper_def)
  moreover from assms have "titleFrom c cs = cs"
    by (simp add: titleFrom_letters isLetter_not_separator)
  ultimately show ?thesis by (simp add: Title_def)
qed

lemma TrimSpace_example: "TrimSpace lib ''ds-fix-header/CLI-34343\<newline>'' = ''ds-fix-header/CLI-34343''"
  by (simp add: TrimSpace_def asciiSpace_def isASCII_def)

lemma extract_example: "extractTicketFromBranch ''ds-fix-header/CLI-34343'' = Inr ''CLI-34343''"
  by code_simp

lemma commit_run:
  "createCommitCmd lib exampleGit [Choose 0, Choose 0, Typed ''typo in header'', YesNo True] =
     (None,
      [Exec [''git'', ''diff'', ''--cached'', ''--quiet''],
       Asked ''Select commit type:'', Got (OptionAns ''fix''),
       Asked ''Select product:'', Got (OptionAns ''lego''),
       Asked ''Enter a short commit description:'', Got (StringAns ''typo in header''),
       Exec [''git'', ''rev-parse'', ''--abbrev-ref'', ''HEAD''],
       Printed ''\<newline>The following commit messages will be created:\<newline>'',
       Printed ''Message 1: fix(lego): typo in header\<newline>'',
       Printed ''Message 2: Fixes CLI-34343\<newline>'',
       Asked ''Do you want to proceed with this commit?'', Got (BoolAns True),
       Printed ''Executing git commit...\<newline>'',
       Exec [''git'', ''commit'', ''-m'', ''fix(lego): typo in header'', ''-m'', ''Fixes CLI-34343''],
       Printed ''Commit created successfully!\<newline>''])"
  by (simp add: createCommitCmd_def andThen_def exampleGit_def stagedCheck_def
      getCurrentBranch_def TrimSpace_example extract_example firstMsg_def secondMsg_def verb_def
      maxCommitDescLength_def)

section \<open>The branch name\<close>

lemma ReplaceAll_byte: "ReplaceAll s [a] [b] = map (\<lambda>x. if x = a then b else x) s"
proof (induction s "[a]" "[b]" rule: ReplaceAll.induct)
  case (1 s)
  show ?case
  proof (cases "a \<in> set s")
    case False
    then have "ReplaceAll s [a] [b] = s"
      by (subst ReplaceAll.simps) (simp add: Index_byte)
    moreover from False have "map (\<lambda>x. if x = a then b else x) s = s"
      by (induction s) auto
    ultimately show ?thesis by simp
  next
    case True
    let ?m = "length (takeWhile (\<lambda>x. x \<noteq> a) s)"
    let ?rest = "drop (?m + length [a]) s"
    let ?f = "\<lambda>x. if x = a then b else x"
    from True have idx: "Index s [a] = Some ?m" by (simp add: Index_byte)
    then have sp: "ReplaceAll s [a] [b] = take ?m s @ [b] @ ReplaceAll ?rest [a] [b]"
      by (subst ReplaceAll.simps) simp
    have ih: "ReplaceAll ?rest [a] [b] = map ?f ?rest"
      using "1.hyps"[OF _ idx] by simp
    from True have dw: "dropWhile (\<lambda>x. x \<noteq> a) s = a # ?rest"
      by (simp add: dropWhile_byte)
    have tk: "take ?m s = takeWhile (\<lambda>x. x \<noteq> a) s"
      by (rule takeWhile_eq_take[symmetric])
    have s: "s = takeWhile (\<lambda>x. x \<noteq> a) s @ a # ?rest"
      using takeWhile_dropWhile_id[of "\<lambda>x. x \<noteq> a" s] dw by simp
    have "map ?f (takeWhile (\<lambda>x. x \<noteq> a) s) = takeWhile (\<lambda>x. x \<noteq> a) s"
      by (rule map_idI) (auto dest: set_takeWhileD)
    then have "map ?f (takeWhile (\<lambda>x. x \<noteq> a) s @ a # ?rest)
        = takeWhile (\<lambda>x. x \<noteq> a) s @ b # map ?f ?rest"
      by simp
    with arg_cong[OF s, of "map ?f"]
    have "map ?f s = takeWhile (\<lambda>x. x \<noteq> a) s @ b # map ?f ?rest"
      by (rule trans)
    with sp ih tk show ?thesis by simp
  qed
qed

lemma length_ReplaceAll_byte: "length (ReplaceAll s [a] [b]) = length s"
  by (simp add: ReplaceAll_byte)

lemma ToLower_ASCII: "list_all isASCII s \<Longrightarrow> ToLower lib s = map toLowerByte s"
  by (simp add: ToLower_def)

lemma branch_run:
  "createBranchCmd exampleLib (\<lambda>argv. Exited 0 []) exampleFs
       [Choose 1, Typed ''Add login page'', Typed ''CPRE-999'', Choose 0, YesNo True] =
   ((None,
     [Asked ''Choose branch type:'', Got (OptionAns ''feat''),
      Asked ''Enter a short branch description (spaces will be replaced with hyphens):'',
      Got (StringAns ''Add login page''),
      Asked ''Enter the JIRA Ticket ID (e.g., CPRE-11347):'', Got (StringAns ''CPRE-999''),
      Printed ''\<newline>Proposed branch name: ds-feat-add-login-page/CPRE-999\<newline>'',
      Asked ''What would you like to do?'', Got (OptionAns ''Confirm and create branch''),
      Asked (''Create branch '' @ [CHR 0x27] @ ''ds-feat-add-login-page/CPRE-999'' @ [CHR 0x27] @ ''?''),
      Got (BoolAns True),
      Printed ''Executing: git checkout -b ds-feat-add-login-page/CPRE-999\<newline>'',
      Exec [''git'', ''checkout'', ''-b'', ''ds-feat-add-login-page/CPRE-999''],
      Printed ''Branch created and switched successfully!\<newline>'']),
    exampleFs)"
  by code_simp

text \<open>
  Claim C4. The branch name is the abbreviation in lower case, a hyphen, the type, a
  hyphen, the description in lower case, a slash and the ticket id; the ticket id is the
  end of the name as it was entered. On ASCII strings lower case is the byte-wise one.
  With the abbreviation \<^verbatim>\<open>ds\<close>, the type \<^verbatim>\<open>feat\<close>, the description \<^verbatim>\<open>Add login page\<close> and
  the ticket \<^verbatim>\<open>CPRE-999\<close> the name is \<^verbatim>\<open>ds-feat-add-login-page/CPRE-999\<close>, and create-branch
  checks out exactly that.
\<close>

theorem branch_name_assembled:
  "assembleBranchName lib cfg d =
     ToLower lib (Abbreviation cfg) @ ''-'' @ branchType d @ ''-'' @ ToLower lib (description d)
       @ ''/'' @ ticketID d
   \<and> (list_all isASCII s \<longrightarrow> ToLower lib s = map toLowerByte s)
   \<and> drop (length (assembleBranchName lib cfg d) - length (ticketID d))
        (assembleBranchName lib cfg d) = ticketID d
   \<and> assembleBranchName lib \<lparr>Abbreviation = ''ds''\<rparr>
        \<lparr>branchType = ''feat'', description = ReplaceAll ''Add login page'' '' '' ''-'',
         ticketID = ''CPRE-999''\<rparr> = ''ds-feat-add-login-page/CPRE-999''
   \<and> Exec [''git'', ''checkout'', ''-b'', ''ds-feat-add-login-page/CPRE-999'']
       \<in> set (snd (fst (createBranchCmd exampleLib (\<lambda>argv. Exited 0 []) exampleFs
              [Choose 1, Typed ''Add login page'', Typed ''CPRE-999'', Choose 0, YesNo True])))"
proof (intro conjI)
  show "assembleBranchName lib cfg d =
     ToLower lib (Abbreviation cfg) @ ''-'' @ branchType d @ ''-'' @ ToLower lib (description d)
       @ ''/'' @ ticketID d"
    by (simp add: assembleBranchName_def)
  show "list_all isASCII s \<longrightarrow> ToLower lib s = map toLowerByte s"
    by (simp add: ToLower_def)
  have "assembleBranchName lib cfg d =
      (ToLower lib (Abbreviation cfg) @ ''-'' @ branchType d @ ''-'' @ ToLower lib (description d)
       @ ''/'') @ ticketID d"
    by (simp add: assembleBranchName_def)
  then show "drop (length (assembleBranchName lib cfg d) - length (ticketID d))
        (assembleBranchName lib cfg d) = ticketID d"
    by (simp only: length_append add_diff_cancel_right' append_eq_conv_conj[symmetric] drop_append
          drop_all order_refl diff_self_eq_0 drop_0 append_Nil)
  have r: "ReplaceAll ''Add login page'' '' '' ''-'' = ''Add-login-page''"
    by (simp add: ReplaceAll_byte)
  have a: "list_all isASCII ''ds''" "list_all isASCII ''Add-login-page''" by code_simp+
  have l: "map toLowerByte ''ds'' = ''ds''" "map toLowerByte ''Add-login-page'' = ''add-login-page''"
    by code_simp+
  show "assembleBranchName lib \<lparr>Abbreviation = ''ds''\<rparr>
        \<lparr>branchType = ''feat'', description = ReplaceAll ''Add login page'' '' '' ''-'',
         ticketID = ''CPRE-999''\<rparr> = ''ds-feat-add-login-page/CPRE-999''"
    unfolding assembleBranchName_def r by (simp only: ToLower_ASCII[OF a(1)] ToLower_ASCII[OF a(2)] l
        details.simps Config.simps) simp
  show "Exec [''git'', ''checkout'', ''-b'', ''ds-feat-add-login-page/CPRE-999'']
       \<in> set (snd (fst (createBranchCmd exampleLib (\<lambda>argv. Exited 0 []) exampleFs
              [Choose 1, Typed ''Add login page'', Typed ''CPRE-999'', Choose 0, YesNo True])))"
    unfolding branch_run by simp
qed

text \<open>The theorem at the upper-case abbreviation of the specification's other example.\<close>

theorem branch_name_assembled_witness:
  "list_all isASCII ''DS''
   \<and> assembleBranchName exampleLib \<lparr>Abbreviation = ''DS''\<rparr>
        \<lparr>branchType = ''fix'', description = ''User-Details-Window'', ticketID = ''CPRE-11347''\<rparr>
       = ''ds-fix-user-details-window/CPRE-11347''"
proof -
  have a: "list_all isASCII ''DS''" "list_all isASCII ''User-Details-Window''" by code_simp+
  have l: "map toLowerByte ''DS'' = ''ds''"
    "map toLowerByte ''User-Details-Window'' = ''user-details-window''" by code_simp+
  from branch_name_assembled[of exampleLib "\<lparr>Abbreviation = ''DS''\<rparr>"
      "\<lparr>branchType = ''fix'', description = ''User-Details-Window'', ticketID = ''CPRE-11347''\<rparr>"
      "''DS''"]
    branch_name_assembled[of exampleLib "\<lparr>Abbreviation = ''DS''\<rparr>"
      "\<lparr>branchType = ''fix'', description = ''User-Details-Window'', ticketID = ''CPRE-11347''\<rparr>"
      "''User-Details-Window''"] a l
  show ?thesis by simp
qed

section \<open>The description validators\<close>

text \<open>
  Claim C1, as stated, fails at the commit description \<^verbatim>\<open>typo in header\<close>: the
  specification's function answers \<^verbatim>\<open>typo-in-header\<close>, while the prompt of create-commit
  hands the line on as it was typed, and the commit is made with the spaces in it.
\<close>

theorem commit_description_keeps_spaces:
  "validateDescription_spec ''typo in header'' 50 = Some ''typo-in-header''
   \<and> fst (askInput commitDescValidator ''Enter a short commit description:''
            [Typed ''typo in header'']) = Inr ''typo in header''
   \<and> fst (askInput commitDescValidator ''Enter a short commit description:''
            [Typed ''typo in header'']) \<noteq> Inr ''typo-in-header''
   \<and> Exec [''git'', ''commit'', ''-m'', ''fix(lego): typo in header'', ''-m'', ''Fixes CLI-34343'']
       \<in> set (snd (createCommitCmd exampleLib exampleGit
                     [Choose 0, Choose 0, Typed ''typo in header'', YesNo True]))"
proof (intro conjI)
  show "validateDescription_spec ''typo in header'' 50 = Some ''typo-in-header''"
    by (simp add: validateDescription_spec_def characters_def isContinuation_def)
  show "fst (askInput commitDescValidator ''Enter a short commit description:''
            [Typed ''typo in header'']) = Inr ''typo in header''"
    by (simp add: maxCommitDescLength_def)
  then show "fst (askInput commitDescValidator ''Enter a short commit description:''
            [Typed ''typo in header'']) \<noteq> Inr ''typo-in-header''"
    by simp
  show "Exec [''git'', ''commit'', ''-m'', ''fix(lego): typo in header'', ''-m'', ''Fixes CLI-34343'']
       \<in> set (snd (createCommitCmd exampleLib exampleGit
                     [Choose 0, Choose 0, Typed ''typo in header'', YesNo True]))"
    unfolding commit_run by simp
qed

section \<open>Loading the configuration\<close>

lemma loadConfig_fs: "snd (loadConfig lib s) = snd (configFilePath s)"
  unfolding loadConfig_def Let_def
  by (auto split: prod.splits sum.splits)

lemma showConfigCmd_fs: "snd (showConfigCmd lib s) = snd (loadConfig lib s)"
  unfolding showConfigCmd_def
  by (auto split: prod.splits option.splits)

lemma createBranchCmd_fs: "snd (createBranchCmd lib git s ins) = snd (loadConfig lib s)"
  unfolding createBranchCmd_def
  by (auto split: prod.splits option.splits)

lemma loadConfig_open_error:
  "configFilePath s = (Inr configPath, s') \<Longrightarrow> Open s' configPath = Inl err \<Longrightarrow>
   loadConfig lib s = ((\<lparr>Abbreviation = ''''\<rparr>, None), s')"
  by (simp add: loadConfig_def)

text \<open>
  Claim C2 asks that an unreadable configuration file is reported. \<^verbatim>\<open>loadConfig\<close> treats
  every error of \<^verbatim>\<open>os.Open\<close> as "no file": with the record of \<^verbatim>\<open>ds\<close> in place it
  returns that record, and when opening the same file is refused it returns the empty
  configuration and no error.
\<close>

theorem loadConfig_swallows_open_error:
  "loadConfig exampleLib exampleFs = ((\<lparr>Abbreviation = ''ds''\<rparr>, None), exampleFs)
   \<and> Open lockedFs [''home'', ''u'', ''.git-helper-cli'', ''config.json''] = Inl (SyscallError ''EACCES'')
   \<and> loadConfig exampleLib lockedFs = ((\<lparr>Abbreviation = ''''\<rparr>, None), lockedFs)"
  by code_simp

section \<open>The review loop of create-branch\<close>

lemma askSelect_cases:
  assumes "askSelect msg options ins = (r, evs, ins')"
  shows "(\<exists>e. r = Inl e \<and> evs = [Asked msg]) \<or>
         (\<exists>i. ins = Choose i # ins' \<and> i < length options \<and> r = Inr (options ! i)
              \<and> evs = [Asked msg, Got (OptionAns (options ! i))])"
  using assms by (cases "(msg, options, ins)" rule: askSelect.cases) (auto split: if_splits)

lemma askConfirm_cases:
  assumes "askConfirm msg ins = (r, evs, ins')"
  shows "(\<exists>e. r = Inl e \<and> evs = [Asked msg]) \<or>
         (\<exists>b. ins = YesNo b # ins' \<and> r = Inr b \<and> evs = [Asked msg, Got (BoolAns b)])"
  using assms by (cases "(msg, ins)" rule: askConfirm.cases) auto

lemma askInput_events:
  assumes "askInput v msg ins = (r, evs, ins')"
  shows "(\<forall>e \<in> set evs. \<not> isExec e) \<and> (\<forall>m. Asked m \<in> set evs \<longrightarrow> m = msg)
         \<and> (\<forall>s. r = Inr s \<longrightarrow> v (StringAns s) = None)"
  using assms
proof (induction v msg ins arbitrary: r evs ins' rule: askInput.induct)
  case (2 validator msg s ins)
  show ?case
  proof (cases "validator (StringAns s)")
    case None
    with "2.prems" show ?thesis by auto
  next
    case (Some err)
    obtain r0 evs0 ins0 where a: "askInput validator msg ins = (r0, evs0, ins0)"
      by (cases "askInput validator msg ins") auto
    with Some "2.prems" have "r = r0" "evs = Asked msg # Invalid err # evs0" by auto
    with "2.IH"[OF Some a] show ?thesis by auto
  qed
qed auto













lemma askSelect_quiet: "askSelect msg options ins = (r, evs, ins') \<Longrightarrow> \<forall>e \<in> set evs. \<not> isExec e"
  by (auto dest!: askSelect_cases)

lemma askInput_quiet: "askInput v msg ins = (r, evs, ins') \<Longrightarrow> \<forall>e \<in> set evs. \<not> isExec e"
  by (auto dest!: askInput_events)





section \<open>Runs of create-commit and create-branch\<close>

text \<open>
  What the two commands do, from start to end, for a user who answers every prompt once
  and confirms; and, for create-commit, what every run that reaches \<^verbatim>\<open>git commit\<close> has
  gone through.
\<close>

lemma createCommitCmd_run:
  assumes staged: "Run (git stagedCheck) \<noteq> None"
    and i: "i < 2" and j: "j < 2"
    and desc: "commitDescValidator (StringAns commitDesc) = None"
    and branch: "Output (git [''git'', ''rev-parse'', ''--abbrev-ref'', ''HEAD'']) = (out, None)"
    and ticket: "extractTicketFromBranch (TrimSpace lib out) = Inr tid"
  shows "createCommitCmd lib git (Choose i # Choose j # Typed commitDesc # YesNo True # rest) =
    (let commitType = [''fix'', ''feat''] ! i;
         product = [''lego'', ''plec''] ! j;
         line1 = commitType @ ''('' @ product @ ''): '' @ commitDesc;
         line2 = [''Fixes'', ''Closes''] ! i @ '' '' @ tid;
         commit = [''git'', ''commit'', ''-m'', line1, ''-m'', line2]
     in (case Run (git commit) of
           None \<Rightarrow> None
         | Some err \<Rightarrow> Some (Wrapf ''failed to create commit: '' err),
         [Exec [''git'', ''diff'', ''--cached'', ''--quiet''],
          Asked ''Select commit type:'', Got (OptionAns commitType),
          Asked ''Select product:'', Got (OptionAns product),
          Asked ''Enter a short commit description:'', Got (StringAns commitDesc),
          Exec [''git'', ''rev-parse'', ''--abbrev-ref'', ''HEAD''],
          Printed ''\<newline>The following commit messages will be created:\<newline>'',
          Printed (''Message 1: '' @ line1 @ ''\<newline>''),
          Printed (''Message 2: '' @ line2 @ ''\<newline>''),
          Asked ''Do you want to proceed with this commit?'', Got (BoolAns True),
          Printed ''Executing git commit...\<newline>'',
          Exec commit]
         @ (case Run (git commit) of
              None \<Rightarrow> [Printed ''Commit created successfully!\<newline>'']
            | Some err \<Rightarrow> [])))"
proof -
  note defs = createCommitCmd_def andThen_def stagedCheck_def getCurrentBranch_def
    firstMsg_def secondMsg_def verb_def Let_def
  from staged have st: "Run (git [''git'', ''diff'', ''--cached'', ''--quiet'']) \<noteq> None"
    by (simp add: stagedCheck_def)
  have a: ?thesis if "i = 0" "j = 0"
    unfolding that defs using st desc branch ticket
    by (simp del: commitDescValidator.simps split: option.splits)
  have b: ?thesis if "i = 0" "j = 1"
    unfolding that defs using st desc branch ticket
    by (simp del: commitDescValidator.simps split: option.splits)
  have c: ?thesis if "i = 1" "j = 0"
    unfolding that defs using st desc branch ticket
    by (simp del: commitDescValidator.simps split: option.splits)
  have d: ?thesis if "i = 1" "j = 1"
    unfolding that defs using st desc branch ticket
    by (simp del: commitDescValidator.simps split: option.splits)
  from i have "i = 0 \<or> i = 1" by auto
  moreover from j have "j = 0 \<or> j = 1" by auto
  ultimately show ?thesis using a b c d by blast
qed

lemma andThen_Inl: "andThen (Inl e, evs, ins) rest = (Some e, evs)"
  by (simp add: andThen_def)

lemma andThen_Inr:
  "andThen (Inr a, evs, ins) rest = (fst (rest a ins), evs @ snd (rest a ins))"
  by (simp add: andThen_def split: prod.splits)

lemma askConfirm_quiet: "askConfirm msg ins = (r, evs, ins') \<Longrightarrow> \<forall>e \<in> set evs. \<not> isExec e"
  by (auto dest!: askConfirm_cases)

lemma createCommitCmd_commit_shape:
  assumes "Exec (''git'' # ''commit'' # args) \<in> set (snd (createCommitCmd lib git ins))"
  shows "\<exists>commitType \<in> set [''fix'', ''feat'']. \<exists>product \<in> set [''lego'', ''plec''].
         \<exists>commitDesc out tid.
           commitDescValidator (StringAns commitDesc) = None
           \<and> Got (OptionAns commitType) \<in> set (snd (createCommitCmd lib git ins))
           \<and> Got (OptionAns product) \<in> set (snd (createCommitCmd lib git ins))
           \<and> Got (StringAns commitDesc) \<in> set (snd (createCommitCmd lib git ins))
           \<and> Output (git [''git'', ''rev-parse'', ''--abbrev-ref'', ''HEAD'']) = (out, None)
           \<and> extractTicketFromBranch (TrimSpace lib out) = Inr tid
           \<and> args = [''-m'', commitType @ ''('' @ product @ ''): '' @ commitDesc,
                      ''-m'', (if commitType = ''fix'' then ''Fixes'' else ''Closes'') @ '' '' @ tid]"
proof -
  let ?E = "Exec (''git'' # ''commit'' # args)"
  let ?run = "snd (createCommitCmd lib git ins)"
  note defs = createCommitCmd_def stagedCheck_def getCurrentBranch_def Let_def
  note at = andThen_Inl andThen_Inr
  have st: "Run (git [''git'', ''diff'', ''--cached'', ''--quiet'']) \<noteq> None"
  proof
    assume "Run (git [''git'', ''diff'', ''--cached'', ''--quiet'']) = None"
    then have "?run = [Exec [''git'', ''diff'', ''--cached'', ''--quiet'']]"
      by (simp add: defs)
    with assms show False by simp
  qed
  obtain r1 e1 i1 where p1: "askSelect ''Select commit type:'' [''fix'', ''feat''] ins = (r1, e1, i1)"
    by (cases "askSelect ''Select commit type:'' [''fix'', ''feat''] ins") auto
  obtain r2 e2 i2 where p2: "askSelect ''Select product:'' [''lego'', ''plec''] i1 = (r2, e2, i2)"
    by (cases "askSelect ''Select product:'' [''lego'', ''plec''] i1") auto
  obtain r3 e3 i3 where
    p3: "askInput commitDescValidator ''Enter a short commit description:'' i2 = (r3, e3, i3)"
    by (cases "askInput commitDescValidator ''Enter a short commit description:'' i2") auto
  obtain out berr where
    o: "Output (git [''git'', ''rev-parse'', ''--abbrev-ref'', ''HEAD'']) = (out, berr)"
    by (cases "Output (git [''git'', ''rev-parse'', ''--abbrev-ref'', ''HEAD''])") auto
  obtain r5 e5 i5 where
    p5: "askConfirm ''Do you want to proceed with this commit?'' i3 = (r5, e5, i5)"
    by (cases "askConfirm ''Do you want to proceed with this commit?'' i3") auto
  have q: "?E \<notin> set e1" "?E \<notin> set e2" "?E \<notin> set e3" "?E \<notin> set e5"
    using askSelect_quiet[OF p1] askSelect_quiet[OF p2] askInput_quiet[OF p3] askConfirm_quiet[OF p5]
    by fastforce+
  have s1: "\<exists>commitType. r1 = Inr commitType"
  proof (cases r1)
    case (Inl e)
    with p1 have "?run = Exec [''git'', ''diff'', ''--cached'', ''--quiet''] # e1"
      by (simp add: defs at st)
    with assms q show ?thesis by simp
  qed simp
  then obtain commitType where r1: "r1 = Inr commitType" by blast
  with askSelect_cases[OF p1] have ct: "commitType \<in> set [''fix'', ''feat'']"
    and g1: "Got (OptionAns commitType) \<in> set e1"
    by (auto simp: less_Suc_eq)
  have s2: "\<exists>product. r2 = Inr product"
  proof (cases r2)
    case (Inl e)
    with p1 r1 p2 have "?run = Exec [''git'', ''diff'', ''--cached'', ''--quiet''] # e1 @ e2"
      by (simp add: defs at st)
    with assms q show ?thesis by simp
  qed simp
  then obtain product where r2: "r2 = Inr product" by blast
  with askSelect_cases[OF p2] have pr: "product \<in> set [''lego'', ''plec'']"
    and g2: "Got (OptionAns product) \<in> set e2"
    by (auto simp: less_Suc_eq)
  have s3: "\<exists>commitDesc. r3 = Inr commitDesc"
  proof (cases r3)
    case (Inl e)
    with p1 r1 p2 r2 p3
    have "?run = Exec [''git'', ''diff'', ''--cached'', ''--quiet''] # e1 @ e2 @ e3"
      by (simp add: defs at st)
    with assms q show ?thesis by simp
  qed simp
  then obtain commitDesc where r3: "r3 = Inr commitDesc" by blast
  with askInput_events[OF p3] have cd: "commitDescValidator (StringAns commitDesc) = None"
    by blast
  have g3: "Got (StringAns commitDesc) \<in> set e3"
    using p3 r3
  proof (induction commitDescValidator "''Enter a short commit description:''" i2
      arbitrary: e3 i3 rule: askInput.induct)
    case (2 s ins)
    then show ?case
      by (auto simp del: commitDescValidator.simps split: option.splits prod.splits)
  qed auto
  have s4: "berr = None"
  proof (cases berr)
    case (Some e)
    with p1 r1 p2 r2 p3 r3 o
    have "?run = Exec [''git'', ''diff'', ''--cached'', ''--quiet''] # e1 @ e2 @ e3
                   @ [Exec [''git'', ''rev-parse'', ''--abbrev-ref'', ''HEAD'']]"
      by (simp add: defs at st)
    with assms q show ?thesis by simp
  qed simp
  have s5: "\<exists>tid. extractTicketFromBranch (TrimSpace lib out) = Inr tid"
  proof (cases "extractTicketFromBranch (TrimSpace lib out)")
    case (Inl e)
    with p1 r1 p2 r2 p3 r3 o s4
    have "?run = Exec [''git'', ''diff'', ''--cached'', ''--quiet''] # e1 @ e2 @ e3
                   @ [Exec [''git'', ''rev-parse'', ''--abbrev-ref'', ''HEAD'']]"
      by (simp add: defs at st)
    with assms q show ?thesis by simp
  qed simp
  then obtain tid where t: "extractTicketFromBranch (TrimSpace lib out) = Inr tid" by blast
  let ?line1 = "firstMsg commitType product commitDesc"
  let ?line2 = "secondMsg lib commitType tid"
  let ?shown = "[Printed ''\<newline>The following commit messages will be created:\<newline>'',
            Printed (''Message 1: '' @ ?line1 @ ''\<newline>''),
            Printed (''Message 2: '' @ ?line2 @ ''\<newline>'')]"
  let ?pre = "Exec [''git'', ''diff'', ''--cached'', ''--quiet''] # e1 @ e2 @ e3
                   @ [Exec [''git'', ''rev-parse'', ''--abbrev-ref'', ''HEAD'']] @ ?shown @ e5"
  have qpre: "?E \<notin> set ?pre" using q by simp
  have s6: "r5 = Inr True"
  proof (cases r5)
    case (Inl e)
    with p1 r1 p2 r2 p3 r3 o s4 t p5 have "?run = ?pre"
      by (simp add: defs at st)
    with assms qpre show ?thesis by simp
  next
    case (Inr confirm)
    show ?thesis
    proof (cases confirm)
      case False
      with Inr p1 r1 p2 r2 p3 r3 o s4 t p5
      have "?run = ?pre @ [Printed ''Commit creation aborted.\<newline>'']"
        by (simp add: defs at st)
      with assms qpre show ?thesis by simp
    qed (simp add: Inr)
  qed
  let ?commit = "[''git'', ''commit'', ''-m'', ?line1, ''-m'', ?line2]"
  from p1 r1 p2 r2 p3 r3 o s4 t p5 s6
  have run: "?run = ?pre @ [Printed ''Executing git commit...\<newline>'', Exec ?commit]
               @ (case Run (git ?commit) of
                    None \<Rightarrow> [Printed ''Commit created successfully!\<newline>'']
                  | Some err \<Rightarrow> [])"
    by (simp add: defs at st split: option.splits)
  with assms qpre have "?E = Exec ?commit"
    by (auto split: option.splits)
  then have args: "args = [''-m'', ?line1, ''-m'', ?line2]" by simp
  from ct have v: "verb lib commitType = (if commitType = ''fix'' then ''Fixes'' else ''Closes'')"
    by (auto simp: verb_def)
  from run g1 g2 g3 have
    "Got (OptionAns commitType) \<in> set ?run" "Got (OptionAns product) \<in> set ?run"
    "Got (StringAns commitDesc) \<in> set ?run"
    by simp_all
  with ct pr cd o s4 t args v show ?thesis
    by (auto simp: firstMsg_def secondMsg_def simp del: commitDescValidator.simps)
qed

lemma characters_ASCII: "list_all isASCII s \<Longrightarrow> characters s = length s"
proof -
  assume "list_all isASCII s"
  then have "filter (\<lambda>c. \<not> isContinuation c) s = s"
    by (induction s) (auto simp: isASCII_def isContinuation_def)
  then show ?thesis by (simp add: characters_def)
qed

lemma hyphens_ASCII:
  "list_all isASCII s \<Longrightarrow> list_all isASCII (map (\<lambda>c. if c = CHR '' '' then CHR ''-'' else c) s)"
  by (induction s) (auto simp: isASCII_def)

lemma descriptionValidator_spec:
  assumes "list_all isASCII raw"
  shows "(descriptionValidator (StringAns raw) = None) = (validateDescription_spec raw 30 \<noteq> None)"
  using characters_ASCII[OF hyphens_ASCII[OF assms]]
  by (auto simp: validateDescription_spec_def maxDescLength_def Let_def length_ReplaceAll_byte)

lemma commitDescValidator_spec:
  assumes "list_all isASCII raw"
  shows "(commitDescValidator (StringAns raw) = None) = (validateDescription_spec raw 50 \<noteq> None)"
  using characters_ASCII[OF hyphens_ASCII[OF assms]]
  by (auto simp: validateDescription_spec_def maxCommitDescLength_def Let_def)

lemma validateDescription_spec_Some:
  "validateDescription_spec raw maxLen = Some n \<Longrightarrow> ReplaceAll raw '' '' ''-'' = n"
  by (auto simp: validateDescription_spec_def Let_def ReplaceAll_byte split: if_splits)

lemma review_edit_description:
  assumes "descriptionValidator (StringAns raw) = None"
  shows "\<exists>evs. review lib git cfg d (Choose 2 # Typed raw # ins)
           = Again (d\<lparr>description := ReplaceAll raw '' '' ''-''\<rparr>) evs ins"
proof -
  have "askInput descriptionValidator msg (Typed raw # ins) = (Inr raw, [Asked msg, Got (StringAns raw)], ins)"
    for msg using assms by simp
  then show ?thesis
    unfolding review_def Let_def promptDescription_def
    by (simp add: menuOptions_def del: descriptionValidator.simps)
qed

lemma reviewLoop_confirmed:
  "reviewLoop lib git cfg d (Choose 0 # YesNo True # rest) =
     (case Run (git [''git'', ''checkout'', ''-b'', assembleBranchName lib cfg d]) of
        None \<Rightarrow> None
      | Some err \<Rightarrow> Some (Wrapf ''failed to create branch: '' err),
      [proposed lib cfg d] @ creation (assembleBranchName lib cfg d)
      @ (case Run (git [''git'', ''checkout'', ''-b'', assembleBranchName lib cfg d]) of
           None \<Rightarrow> [Printed ''Branch created and switched successfully!\<newline>'']
         | Some err \<Rightarrow> []))"
  by (subst reviewLoop.simps)
    (simp add: review_def Let_def menuOptions_def creation_def proposed_def split: option.splits)

lemma createBranchCmd_run:
  assumes cfg: "loadConfig lib s = ((cfg, None), s')" "Abbreviation cfg \<noteq> ''''"
    and i: "i < 2"
    and desc: "descriptionValidator (StringAns raw) = None"
    and ticket: "ticketValidator (StringAns t) = None"
  shows "fst (createBranchCmd lib git s
            (Choose i # Typed raw # Typed t # Choose 0 # YesNo True # rest)) =
    (let name = ToLower lib (Abbreviation cfg) @ ''-'' @ [''fix'', ''feat''] ! i @ ''-''
                  @ ToLower lib (ReplaceAll raw '' '' ''-'') @ ''/'' @ t;
         checkout = [''git'', ''checkout'', ''-b'', name]
     in (case Run (git checkout) of
           None \<Rightarrow> None
         | Some err \<Rightarrow> Some (Wrapf ''failed to create branch: '' err),
         [Asked ''Choose branch type:'', Got (OptionAns ([''fix'', ''feat''] ! i)),
          Asked ''Enter a short branch description (spaces will be replaced with hyphens):'',
          Got (StringAns raw),
          Asked ''Enter the JIRA Ticket ID (e.g., CPRE-11347):'', Got (StringAns t),
          Printed (''\<newline>Proposed branch name: '' @ name @ ''\<newline>'')]
         @ creation name
         @ (case Run (git checkout) of
              None \<Rightarrow> [Printed ''Branch created and switched successfully!\<newline>'']
            | Some err \<Rightarrow> [])))"
proof -
  note defs = createBranchCmd_def andThen_Inl andThen_Inr promptBranchType_def
    promptDescription_def promptTicketID_def reviewLoop_confirmed assembleBranchName_def Let_def
    proposed_def
  have a: ?thesis if "i = 0"
    unfolding that using cfg desc ticket
    by (simp add: defs del: descriptionValidator.simps ticketValidator.simps split: option.splits)
  have b: ?thesis if "i = 1"
    unfolding that using cfg desc ticket
    by (simp add: defs del: descriptionValidator.simps ticketValidator.simps split: option.splits)
  from i have "i = 0 \<or> i = 1" by auto
  with a b show ?thesis by blast
qed

section \<open>The commit messages\<close>

text \<open>
  Claim C5. The first message is \<^verbatim>\<open>type(product): description\<close> and the second is the
  verb, a space and the ticket id. The verb is \<^verbatim>\<open>Fixes\<close> for \<^verbatim>\<open>fix\<close>, \<^verbatim>\<open>Closes\<close> for
  \<^verbatim>\<open>feat\<close> and \<^verbatim>\<open>strings.Title\<close> of the type otherwise, which for a word of letters is
  the word with its first letter in upper case. The example of the specification comes
  out as it says. In create-commit itself: for every type and product of the menus, every
  description that the validator accepts and every ticket id that the branch gives, the
  run that is confirmed prints these two messages and commits with them; and every
  \<^verbatim>\<open>git commit\<close> that create-commit runs, on any inputs, has these two messages, built
  from the answers that were given.
\<close>

theorem commit_messages_assembled:
  "firstMsg commitType product commitDesc = commitType @ ''('' @ product @ ''): '' @ commitDesc
   \<and> secondMsg lib commitType ticket = verb lib commitType @ '' '' @ ticket
   \<and> verb lib ''fix'' = ''Fixes''
   \<and> verb lib ''feat'' = ''Closes''
   \<and> (commitType \<noteq> ''fix'' \<and> commitType \<noteq> ''feat'' \<longrightarrow> verb lib commitType = Title lib commitType)
   \<and> (list_all isLetter (c # cs) \<longrightarrow> Title lib (c # cs) = toUpperByte c # cs)
   \<and> (firstMsg ''fix'' ''lego'' ''typo in header'', secondMsg lib ''fix'' ''CLI-34343'')
       = (''fix(lego): typo in header'', ''Fixes CLI-34343'')
   \<and> Exec [''git'', ''commit'', ''-m'', ''fix(lego): typo in header'', ''-m'', ''Fixes CLI-34343'']
       \<in> set (snd (createCommitCmd lib exampleGit
                     [Choose 0, Choose 0, Typed ''typo in header'', YesNo True]))
   \<and> (Run (git stagedCheck) \<noteq> None \<and> i < 2 \<and> j < 2
        \<and> commitDescValidator (StringAns commitDesc) = None
        \<and> Output (git [''git'', ''rev-parse'', ''--abbrev-ref'', ''HEAD'']) = (out, None)
        \<and> extractTicketFromBranch (TrimSpace lib out) = Inr ticket \<longrightarrow>
        createCommitCmd lib git (Choose i # Choose j # Typed commitDesc # YesNo True # rest) =
          (let ty = [''fix'', ''feat''] ! i;
               pr = [''lego'', ''plec''] ! j;
               line1 = ty @ ''('' @ pr @ ''): '' @ commitDesc;
               line2 = [''Fixes'', ''Closes''] ! i @ '' '' @ ticket;
               commit = [''git'', ''commit'', ''-m'', line1, ''-m'', line2]
           in (case Run (git commit) of
                 None \<Rightarrow> None
               | Some err \<Rightarrow> Some (Wrapf ''failed to create commit: '' err),
               [Exec [''git'', ''diff'', ''--cached'', ''--quiet''],
                Asked ''Select commit type:'', Got (OptionAns ty),
                Asked ''Select product:'', Got (OptionAns pr),
                Asked ''Enter a short commit description:'', Got (StringAns commitDesc),
                Exec [''git'', ''rev-parse'', ''--abbrev-ref'', ''HEAD''],
                Printed ''\<newline>The following commit messages will be created:\<newline>'',
                Printed (''Message 1: '' @ line1 @ ''\<newline>''),
                Printed (''Message 2: '' @ line2 @ ''\<newline>''),
                Asked ''Do you want to proceed with this commit?'', Got (BoolAns True),
                Printed ''Executing git commit...\<newline>'',
                Exec commit]
               @ (case Run (git commit) of
                    None \<Rightarrow> [Printed ''Commit created successfully!\<newline>'']
                  | Some err \<Rightarrow> []))))
   \<and> (Exec (''git'' # ''commit'' # args) \<in> set (snd (createCommitCmd lib git ins)) \<longrightarrow>
        (\<exists>ty \<in> set [''fix'', ''feat'']. \<exists>pr \<in> set [''lego'', ''plec'']. \<exists>desc branch tid.
           commitDescValidator (StringAns desc) = None
           \<and> Got (OptionAns ty) \<in> set (snd (createCommitCmd lib git ins))
           \<and> Got (OptionAns pr) \<in> set (snd (createCommitCmd lib git ins))
           \<and> Got (StringAns desc) \<in> set (snd (createCommitCmd lib git ins))
           \<and> Output (git [''git'', ''rev-parse'', ''--abbrev-ref'', ''HEAD'']) = (branch, None)
           \<and> extractTicketFromBranch (TrimSpace lib branch) = Inr tid
           \<and> args = [''-m'', ty @ ''('' @ pr @ ''): '' @ desc,
                      ''-m'', (if ty = ''fix'' then ''Fixes'' else ''Closes'') @ '' '' @ tid]))"
proof -
  have t: "list_all isLetter (c # cs) \<longrightarrow> Title lib (c # cs) = toUpperByte c # cs"
    using Title_word by blast
  have x: "Exec [''git'', ''commit'', ''-m'', ''fix(lego): typo in header'', ''-m'', ''Fixes CLI-34343'']
       \<in> set (snd (createCommitCmd lib exampleGit
                     [Choose 0, Choose 0, Typed ''typo in header'', YesNo True]))"
    unfolding commit_run by simp
  have f: "Run (git stagedCheck) \<noteq> None \<and> i < 2 \<and> j < 2
        \<and> commitDescValidator (StringAns commitDesc) = None
        \<and> Output (git [''git'', ''rev-parse'', ''--abbrev-ref'', ''HEAD'']) = (out, None)
        \<and> extractTicketFromBranch (TrimSpace lib out) = Inr ticket \<longrightarrow>
        createCommitCmd lib git (Choose i # Choose j # Typed commitDesc # YesNo True # rest) =
          (let ty = [''fix'', ''feat''] ! i;
               pr = [''lego'', ''plec''] ! j;
               line1 = ty @ ''('' @ pr @ ''): '' @ commitDesc;
               line2 = [''Fixes'', ''Closes''] ! i @ '' '' @ ticket;
               commit = [''git'', ''commit'', ''-m'', line1, ''-m'', line2]
           in (case Run (git commit) of
                 None \<Rightarrow> None
               | Some err \<Rightarrow> Some (Wrapf ''failed to create commit: '' err),
               [Exec [''git'', ''diff'', ''--cached'', ''--quiet''],
                Asked ''Select commit type:'', Got (OptionAns ty),
                Asked ''Select product:'', Got (OptionAns pr),
                Asked ''Enter a short commit description:'', Got (StringAns commitDesc),
                Exec [''git'', ''rev-parse'', ''--abbrev-ref'', ''HEAD''],
                Printed ''\<newline>The following commit messages will be created:\<newline>'',
                Printed (''Message 1: '' @ line1 @ ''\<newline>''),
                Printed (''Message 2: '' @ line2 @ ''\<newline>''),
                Asked ''Do you want to proceed with this commit?'', Got (BoolAns True),
                Printed ''Executing git commit...\<newline>'',
                Exec commit]
               @ (case Run (git commit) of
                    None \<Rightarrow> [Printed ''Commit created successfully!\<newline>'']
                  | Some err \<Rightarrow> [])))"
  proof (intro impI, elim conjE)
    assume "Run (git stagedCheck) \<noteq> None" "i < 2" "j < 2"
      "commitDescValidator (StringAns commitDesc) = None"
      "Output (git [''git'', ''rev-parse'', ''--abbrev-ref'', ''HEAD'']) = (out, None)"
      "extractTicketFromBranch (TrimSpace lib out) = Inr ticket"
    then show "createCommitCmd lib git (Choose i # Choose j # Typed commitDesc # YesNo True # rest) =
          (let ty = [''fix'', ''feat''] ! i;
               pr = [''lego'', ''plec''] ! j;
               line1 = ty @ ''('' @ pr @ ''): '' @ commitDesc;
               line2 = [''Fixes'', ''Closes''] ! i @ '' '' @ ticket;
               commit = [''git'', ''commit'', ''-m'', line1, ''-m'', line2]
           in (case Run (git commit) of
                 None \<Rightarrow> None
               | Some err \<Rightarrow> Some (Wrapf ''failed to create commit: '' err),
               [Exec [''git'', ''diff'', ''--cached'', ''--quiet''],
                Asked ''Select commit type:'', Got (OptionAns ty),
                Asked ''Select product:'', Got (OptionAns pr),
                Asked ''Enter a short commit description:'', Got (StringAns commitDesc),
                Exec [''git'', ''rev-parse'', ''--abbrev-ref'', ''HEAD''],
                Printed ''\<newline>The following commit messages will be created:\<newline>'',
                Printed (''Message 1: '' @ line1 @ ''\<newline>''),
                Printed (''Message 2: '' @ line2 @ ''\<newline>''),
                Asked ''Do you want to proceed with this commit?'', Got (BoolAns True),
                Printed ''Executing git commit...\<newline>'',
                Exec commit]
               @ (case Run (git commit) of
                    None \<Rightarrow> [Printed ''Commit created successfully!\<newline>'']
                  | Some err \<Rightarrow> [])))"
      by (rule createCommitCmd_run)
  qed
  have b: "Exec (''git'' # ''commit'' # args) \<in> set (snd (createCommitCmd lib git ins)) \<longrightarrow>
        (\<exists>ty \<in> set [''fix'', ''feat'']. \<exists>pr \<in> set [''lego'', ''plec'']. \<exists>desc branch tid.
           commitDescValidator (StringAns desc) = None
           \<and> Got (OptionAns ty) \<in> set (snd (createCommitCmd lib git ins))
           \<and> Got (OptionAns pr) \<in> set (snd (createCommitCmd lib git ins))
           \<and> Got (StringAns desc) \<in> set (snd (createCommitCmd lib git ins))
           \<and> Output (git [''git'', ''rev-parse'', ''--abbrev-ref'', ''HEAD'']) = (branch, None)
           \<and> extractTicketFromBranch (TrimSpace lib branch) = Inr tid
           \<and> args = [''-m'', ty @ ''('' @ pr @ ''): '' @ desc,
                      ''-m'', (if ty = ''fix'' then ''Fixes'' else ''Closes'') @ '' '' @ tid])"
    using createCommitCmd_commit_shape[of args lib git ins] by blast
  have h: "firstMsg commitType product commitDesc = commitType @ ''('' @ product @ ''): '' @ commitDesc"
    "secondMsg lib commitType ticket = verb lib commitType @ '' '' @ ticket"
    "verb lib ''fix'' = ''Fixes''" "verb lib ''feat'' = ''Closes''"
    "commitType \<noteq> ''fix'' \<and> commitType \<noteq> ''feat'' \<longrightarrow> verb lib commitType = Title lib commitType"
    "(firstMsg ''fix'' ''lego'' ''typo in header'', secondMsg lib ''fix'' ''CLI-34343'')
       = (''fix(lego): typo in header'', ''Fixes CLI-34343'')"
    by (simp_all add: firstMsg_def secondMsg_def verb_def)
  from h(1) h(2) h(3) h(4) h(5) t h(6) x f b show ?thesis
    by (intro conjI)
qed

text \<open>
  The theorem at a type outside the menu, at the run with \<^verbatim>\<open>feat\<close> and \<^verbatim>\<open>plec\<close>, and at
  the commit of the specification's example.
\<close>

theorem commit_messages_assembled_witness:
  "verb exampleLib ''docs'' = ''Docs''
   \<and> secondMsg exampleLib ''docs'' ''CLI-1'' = ''Docs CLI-1''
   \<and> firstMsg ''docs'' ''plec'' ''readme'' = ''docs(plec): readme''
   \<and> createCommitCmd exampleLib exampleGit [Choose 1, Choose 1, Typed ''new menu'', YesNo True] =
       (None,
        [Exec [''git'', ''diff'', ''--cached'', ''--quiet''],
         Asked ''Select commit type:'', Got (OptionAns ''feat''),
         Asked ''Select product:'', Got (OptionAns ''plec''),
         Asked ''Enter a short commit description:'', Got (StringAns ''new menu''),
         Exec [''git'', ''rev-parse'', ''--abbrev-ref'', ''HEAD''],
         Printed ''\<newline>The following commit messages will be created:\<newline>'',
         Printed ''Message 1: feat(plec): new menu\<newline>'',
         Printed ''Message 2: Closes CLI-34343\<newline>'',
         Asked ''Do you want to proceed with this commit?'', Got (BoolAns True),
         Printed ''Executing git commit...\<newline>'',
         Exec [''git'', ''commit'', ''-m'', ''feat(plec): new menu'', ''-m'', ''Closes CLI-34343''],
         Printed ''Commit created successfully!\<newline>''])
   \<and> Exec [''git'', ''commit'', ''-m'', ''fix(lego): typo in header'', ''-m'', ''Fixes CLI-34343'']
       \<in> set (snd (createCommitCmd exampleLib exampleGit
                     [Choose 0, Choose 0, Typed ''typo in header'', YesNo True]))
   \<and> (\<exists>ty \<in> set [''fix'', ''feat'']. \<exists>pr \<in> set [''lego'', ''plec'']. \<exists>desc branch tid.
         commitDescValidator (StringAns desc) = None
         \<and> Output (exampleGit [''git'', ''rev-parse'', ''--abbrev-ref'', ''HEAD'']) = (branch, None)
         \<and> extractTicketFromBranch (TrimSpace exampleLib branch) = Inr tid
         \<and> [''-m'', ''fix(lego): typo in header'', ''-m'', ''Fixes CLI-34343'']
             = [''-m'', ty @ ''('' @ pr @ ''): '' @ desc,
                ''-m'', (if ty = ''fix'' then ''Fixes'' else ''Closes'') @ '' '' @ tid])"
proof -
  have l: "list_all isLetter ''docs''" by code_simp
  have u: "toUpperByte CHR ''d'' = CHR ''D''" by code_simp
  have ne: "''docs'' \<noteq> ''fix'' \<and> ''docs'' \<noteq> ''feat''" by simp
  note th = commit_messages_assembled[where commitType = "''docs''" and product = "''plec''"
      and commitDesc = "''readme''" and lib = exampleLib and ticket = "''CLI-1''"
      and c = "CHR ''d''" and cs = "''ocs''"]
  note k1 = th[THEN conjunct1]
  note k2 = th[THEN conjunct2, THEN conjunct1]
  note k5 = th[THEN conjunct2, THEN conjunct2, THEN conjunct2, THEN conjunct2, THEN conjunct1]
  note k6 = th[THEN conjunct2, THEN conjunct2, THEN conjunct2, THEN conjunct2, THEN conjunct2,
      THEN conjunct1]
  from k6 l have "Title exampleLib ''docs'' = toUpperByte CHR ''d'' # ''ocs''" by (rule mp)
  with u have ti: "Title exampleLib ''docs'' = ''Docs''" by simp
  from k5 ne have "verb exampleLib ''docs'' = Title exampleLib ''docs''" by (rule mp)
  with ti have a1: "verb exampleLib ''docs'' = ''Docs''" by simp
  from k2 a1 have a2: "secondMsg exampleLib ''docs'' ''CLI-1'' = ''Docs CLI-1''" by simp
  from k1 have a3: "firstMsg ''docs'' ''plec'' ''readme'' = ''docs(plec): readme''" by simp
  have g: "Run (exampleGit stagedCheck) \<noteq> None"
    "Output (exampleGit [''git'', ''rev-parse'', ''--abbrev-ref'', ''HEAD''])
       = (''ds-fix-header/CLI-34343\<newline>'', None)"
    by (simp_all add: exampleGit_def stagedCheck_def)
  have g3: "Run (exampleGit [''git'', ''commit'', ''-m'', ''feat(plec): new menu'', ''-m'',
        ''Closes CLI-34343'']) = None"
    by (simp add: exampleGit_def)
  have e: "extractTicketFromBranch (TrimSpace exampleLib ''ds-fix-header/CLI-34343\<newline>'')
             = Inr ''CLI-34343''"
    by (simp only: TrimSpace_example extract_example)
  have v: "commitDescValidator (StringAns ''new menu'') = None"
    by (simp add: maxCommitDescLength_def)
  have one: "(1::nat) < 2" by simp
  note th2 = commit_messages_assembled[where lib = exampleLib and git = exampleGit and i = 1
      and j = 1 and commitDesc = "''new menu''" and out = "''ds-fix-header/CLI-34343\<newline>''"
      and ticket = "''CLI-34343''" and rest = "[]"]
  note f = th2[THEN conjunct2, THEN conjunct2, THEN conjunct2, THEN conjunct2, THEN conjunct2,
      THEN conjunct2, THEN conjunct2, THEN conjunct2, THEN conjunct1]
  have hyp: "Run (exampleGit stagedCheck) \<noteq> None \<and> (1::nat) < 2 \<and> (1::nat) < 2
        \<and> commitDescValidator (StringAns ''new menu'') = None
        \<and> Output (exampleGit [''git'', ''rev-parse'', ''--abbrev-ref'', ''HEAD''])
             = (''ds-fix-header/CLI-34343\<newline>'', None)
        \<and> extractTicketFromBranch (TrimSpace exampleLib ''ds-fix-header/CLI-34343\<newline>'')
             = Inr ''CLI-34343''"
    using g e v one by (intro conjI)
  note r = f[THEN mp, OF hyp]
  have r': "createCommitCmd exampleLib exampleGit [Choose 1, Choose 1, Typed ''new menu'', YesNo True] =
       (None,
        [Exec [''git'', ''diff'', ''--cached'', ''--quiet''],
         Asked ''Select commit type:'', Got (OptionAns ''feat''),
         Asked ''Select product:'', Got (OptionAns ''plec''),
         Asked ''Enter a short commit description:'', Got (StringAns ''new menu''),
         Exec [''git'', ''rev-parse'', ''--abbrev-ref'', ''HEAD''],
         Printed ''\<newline>The following commit messages will be created:\<newline>'',
         Printed ''Message 1: feat(plec): new menu\<newline>'',
         Printed ''Message 2: Closes CLI-34343\<newline>'',
         Asked ''Do you want to proceed with this commit?'', Got (BoolAns True),
         Printed ''Executing git commit...\<newline>'',
         Exec [''git'', ''commit'', ''-m'', ''feat(plec): new menu'', ''-m'', ''Closes CLI-34343''],
         Printed ''Commit created successfully!\<newline>''])"
    unfolding r by (simp add: Let_def g3)
  note th3 = commit_messages_assembled[where lib = exampleLib and git = exampleGit
      and args = "[''-m'', ''fix(lego): typo in header'', ''-m'', ''Fixes CLI-34343'']"
      and ins = "[Choose 0, Choose 0, Typed ''typo in header'', YesNo True]"]
  note x = th3[THEN conjunct2, THEN conjunct2, THEN conjunct2, THEN conjunct2, THEN conjunct2,
      THEN conjunct2, THEN conjunct2, THEN conjunct1]
  note b = th3[THEN conjunct2, THEN conjunct2, THEN conjunct2, THEN conjunct2, THEN conjunct2,
      THEN conjunct2, THEN conjunct2, THEN conjunct2, THEN conjunct2]
  from b[THEN mp, OF x]
  have s: "\<exists>ty \<in> set [''fix'', ''feat'']. \<exists>pr \<in> set [''lego'', ''plec'']. \<exists>desc branch tid.
         commitDescValidator (StringAns desc) = None
         \<and> Output (exampleGit [''git'', ''rev-parse'', ''--abbrev-ref'', ''HEAD'']) = (branch, None)
         \<and> extractTicketFromBranch (TrimSpace exampleLib branch) = Inr tid
         \<and> [''-m'', ''fix(lego): typo in header'', ''-m'', ''Fixes CLI-34343'']
             = [''-m'', ty @ ''('' @ pr @ ''): '' @ desc,
                ''-m'', (if ty = ''fix'' then ''Fixes'' else ''Closes'') @ '' '' @ tid]"
    by (elim bexE exE conjE) (intro bexI exI conjI; assumption)
  from a1 a2 a3 r' x s show ?thesis by (intro conjI)
qed

section \<open>The description in the two flows\<close>

text \<open>
  Claim C1, amended. On ASCII input, where a byte is a character, both validators reject
  exactly the inputs that the specification's function rejects, with the limit 30 for the
  branch description and 50 for the commit description. create-branch goes on with the
  hyphenated form: after \<^verbatim>\<open>Edit description\<close> it is the description of the loop, and the
  branch that is checked out has it in its name. create-commit goes on with the line as
  typed: the commit is made with it.
\<close>

theorem description_validators:
  "(list_all isASCII raw \<longrightarrow>
      (descriptionValidator (StringAns raw) = None) = (validateDescription_spec raw 30 \<noteq> None)
      \<and> (commitDescValidator (StringAns raw) = None) = (validateDescription_spec raw 50 \<noteq> None))
   \<and> (list_all isASCII raw \<and> validateDescription_spec raw 30 = Some n \<longrightarrow>
        (\<exists>evs. review lib git cfg d (Choose 2 # Typed raw # ins)
                 = Again (d\<lparr>description := n\<rparr>) evs ins))
   \<and> (list_all isASCII raw \<and> validateDescription_spec raw 30 = Some n
        \<and> loadConfig lib s = ((cfg, None), s') \<and> Abbreviation cfg \<noteq> '''' \<and> i < 2
        \<and> ticketValidator (StringAns t) = None \<longrightarrow>
        Exec [''git'', ''checkout'', ''-b'',
              ToLower lib (Abbreviation cfg) @ ''-'' @ [''fix'', ''feat''] ! i @ ''-''
                @ ToLower lib n @ ''/'' @ t]
          \<in> set (snd (fst (createBranchCmd lib git s
                 (Choose i # Typed raw # Typed t # Choose 0 # YesNo True # rest)))))
   \<and> (list_all isASCII raw \<and> validateDescription_spec raw 50 \<noteq> None
        \<and> Run (git stagedCheck) \<noteq> None \<and> i < 2 \<and> j < 2
        \<and> Output (git [''git'', ''rev-parse'', ''--abbrev-ref'', ''HEAD'']) = (out, None)
        \<and> extractTicketFromBranch (TrimSpace lib out) = Inr tid \<longrightarrow>
        Exec [''git'', ''commit'',
              ''-m'', [''fix'', ''feat''] ! i @ ''('' @ [''lego'', ''plec''] ! j @ ''): '' @ raw,
              ''-m'', [''Fixes'', ''Closes''] ! i @ '' '' @ tid]
          \<in> set (snd (createCommitCmd lib git
                 (Choose i # Choose j # Typed raw # YesNo True # rest))))"
proof (intro conjI impI)
  show "(descriptionValidator (StringAns raw) = None) = (validateDescription_spec raw 30 \<noteq> None)"
    if "list_all isASCII raw" using that by (rule descriptionValidator_spec)
  show "(commitDescValidator (StringAns raw) = None) = (validateDescription_spec raw 50 \<noteq> None)"
    if "list_all isASCII raw" using that by (rule commitDescValidator_spec)
  show "\<exists>evs. review lib git cfg d (Choose 2 # Typed raw # ins) = Again (d\<lparr>description := n\<rparr>) evs ins"
    if h: "list_all isASCII raw \<and> validateDescription_spec raw 30 = Some n"
  proof -
    from h descriptionValidator_spec[of raw] have "descriptionValidator (StringAns raw) = None"
      by simp
    from review_edit_description[OF this, of lib git cfg d ins]
      validateDescription_spec_Some[of raw 30 n] h
    show ?thesis by simp
  qed
  show "Exec [''git'', ''checkout'', ''-b'',
              ToLower lib (Abbreviation cfg) @ ''-'' @ [''fix'', ''feat''] ! i @ ''-''
                @ ToLower lib n @ ''/'' @ t]
          \<in> set (snd (fst (createBranchCmd lib git s
                 (Choose i # Typed raw # Typed t # Choose 0 # YesNo True # rest))))"
    if h: "list_all isASCII raw \<and> validateDescription_spec raw 30 = Some n
        \<and> loadConfig lib s = ((cfg, None), s') \<and> Abbreviation cfg \<noteq> '''' \<and> i < 2
        \<and> ticketValidator (StringAns t) = None"
  proof -
    from h descriptionValidator_spec[of raw] have v: "descriptionValidator (StringAns raw) = None"
      by simp
    from h have c: "loadConfig lib s = ((cfg, None), s')" "Abbreviation cfg \<noteq> ''''" "i < 2"
      "ticketValidator (StringAns t) = None" by simp_all
    from h validateDescription_spec_Some[of raw 30 n] have n: "ReplaceAll raw '' '' ''-'' = n"
      by simp
    show ?thesis
      unfolding createBranchCmd_run[OF c(1,2,3) v c(4)] n
      by (simp add: Let_def creation_def)
  qed
  show "Exec [''git'', ''commit'',
              ''-m'', [''fix'', ''feat''] ! i @ ''('' @ [''lego'', ''plec''] ! j @ ''): '' @ raw,
              ''-m'', [''Fixes'', ''Closes''] ! i @ '' '' @ tid]
          \<in> set (snd (createCommitCmd lib git
                 (Choose i # Choose j # Typed raw # YesNo True # rest)))"
    if h: "list_all isASCII raw \<and> validateDescription_spec raw 50 \<noteq> None
        \<and> Run (git stagedCheck) \<noteq> None \<and> i < 2 \<and> j < 2
        \<and> Output (git [''git'', ''rev-parse'', ''--abbrev-ref'', ''HEAD'']) = (out, None)
        \<and> extractTicketFromBranch (TrimSpace lib out) = Inr tid"
  proof -
    from h commitDescValidator_spec[of raw] have v: "commitDescValidator (StringAns raw) = None"
      by simp
    from h have c: "Run (git stagedCheck) \<noteq> None" "i < 2" "j < 2"
      "Output (git [''git'', ''rev-parse'', ''--abbrev-ref'', ''HEAD'']) = (out, None)"
      "extractTicketFromBranch (TrimSpace lib out) = Inr tid" by simp_all
    show ?thesis
      unfolding createCommitCmd_run[OF c(1,2,3) v c(4,5)]
      by (simp add: Let_def)
  qed
qed

text \<open>The theorem at a description that both validators accept.\<close>

theorem description_validators_witness:
  "list_all isASCII ''Add login page''
   \<and> validateDescription_spec ''Add login page'' 30 = Some ''Add-login-page''
   \<and> validateDescription_spec ''Add login page'' 50 \<noteq> None
   \<and> descriptionValidator (StringAns ''Add login page'') = None
   \<and> commitDescValidator (StringAns ''Add login page'') = None
   \<and> (\<exists>evs. review exampleLib exampleGit \<lparr>Abbreviation = ''ds''\<rparr>
               \<lparr>branchType = ''fix'', description = ''x'', ticketID = ''CLI-1''\<rparr>
               [Choose 2, Typed ''Add login page'']
             = Again \<lparr>branchType = ''fix'', description = ''Add-login-page'', ticketID = ''CLI-1''\<rparr>
                 evs [])
   \<and> Exec [''git'', ''checkout'', ''-b'', ''ds-feat-add-login-page/CPRE-999'']
       \<in> set (snd (fst (createBranchCmd exampleLib exampleGit exampleFs
              [Choose 1, Typed ''Add login page'', Typed ''CPRE-999'', Choose 0, YesNo True])))
   \<and> Exec [''git'', ''commit'', ''-m'', ''feat(plec): Add login page'', ''-m'', ''Closes CLI-34343'']
       \<in> set (snd (createCommitCmd exampleLib exampleGit
              [Choose 1, Choose 1, Typed ''Add login page'', YesNo True]))"
proof -
  let ?raw = "''Add login page''"
  have a: "list_all isASCII ?raw" by code_simp
  have b: "validateDescription_spec ?raw 30 = Some ''Add-login-page''"
    by (simp add: validateDescription_spec_def characters_def isContinuation_def)
  have c: "validateDescription_spec ?raw 50 \<noteq> None"
    by (simp add: validateDescription_spec_def characters_def isContinuation_def)
  have l: "loadConfig exampleLib exampleFs = ((\<lparr>Abbreviation = ''ds''\<rparr>, None), exampleFs)"
    by code_simp
  have t: "ticketValidator (StringAns ''CPRE-999'') = None" by code_simp
  have g: "Run (exampleGit stagedCheck) \<noteq> None"
    "Output (exampleGit [''git'', ''rev-parse'', ''--abbrev-ref'', ''HEAD''])
       = (''ds-fix-header/CLI-34343\<newline>'', None)"
    by (simp_all add: exampleGit_def stagedCheck_def)
  have e: "extractTicketFromBranch (TrimSpace exampleLib ''ds-fix-header/CLI-34343\<newline>'')
             = Inr ''CLI-34343''"
    by (simp only: TrimSpace_example extract_example)
  have lo: "ToLower exampleLib ''ds'' = ''ds''"
    "ToLower exampleLib ''Add-login-page'' = ''add-login-page''" by code_simp+
  note th = description_validators[where raw = ?raw and n = "''Add-login-page''"
      and lib = exampleLib and git = exampleGit and cfg = "\<lparr>Abbreviation = ''ds''\<rparr>"
      and d = "\<lparr>branchType = ''fix'', description = ''x'', ticketID = ''CLI-1''\<rparr>"
      and ins = "[]" and s = exampleFs and s' = exampleFs and i = 1 and t = "''CPRE-999''"
      and rest = "[]" and j = 1 and out = "''ds-fix-header/CLI-34343\<newline>''"
      and tid = "''CLI-34343''"]
  from th a have v: "descriptionValidator (StringAns ?raw) = None = (validateDescription_spec ?raw 30 \<noteq> None)"
    "commitDescValidator (StringAns ?raw) = None = (validateDescription_spec ?raw 50 \<noteq> None)"
    by blast+
  from th a b have r: "\<exists>evs. review exampleLib exampleGit \<lparr>Abbreviation = ''ds''\<rparr>
               \<lparr>branchType = ''fix'', description = ''x'', ticketID = ''CLI-1''\<rparr>
               [Choose 2, Typed ?raw]
             = Again (\<lparr>branchType = ''fix'', description = ''x'', ticketID = ''CLI-1''\<rparr>
                        \<lparr>description := ''Add-login-page''\<rparr>) evs []"
    by blast
  have one: "(1::nat) < 2" by simp
  from th a b l t one
  have br: "Exec [''git'', ''checkout'', ''-b'',
              ToLower exampleLib (Abbreviation \<lparr>Abbreviation = ''ds''\<rparr>) @ ''-''
                @ [''fix'', ''feat''] ! 1 @ ''-'' @ ToLower exampleLib ''Add-login-page''
                @ ''/'' @ ''CPRE-999'']
          \<in> set (snd (fst (createBranchCmd exampleLib exampleGit exampleFs
                 [Choose 1, Typed ?raw, Typed ''CPRE-999'', Choose 0, YesNo True])))"
    by simp
  from th a c g e one
  have co: "Exec [''git'', ''commit'',
              ''-m'', [''fix'', ''feat''] ! 1 @ ''('' @ [''lego'', ''plec''] ! 1 @ ''): '' @ ?raw,
              ''-m'', [''Fixes'', ''Closes''] ! 1 @ '' '' @ ''CLI-34343'']
          \<in> set (snd (createCommitCmd exampleLib exampleGit
                 [Choose 1, Choose 1, Typed ?raw, YesNo True]))"
    by simp
  from br lo have br': "Exec [''git'', ''checkout'', ''-b'', ''ds-feat-add-login-page/CPRE-999'']
       \<in> set (snd (fst (createBranchCmd exampleLib exampleGit exampleFs
              [Choose 1, Typed ?raw, Typed ''CPRE-999'', Choose 0, YesNo True])))"
    by simp
  from co have co': "Exec [''git'', ''commit'', ''-m'', ''feat(plec): Add login page'', ''-m'',
         ''Closes CLI-34343'']
       \<in> set (snd (createCommitCmd exampleLib exampleGit
              [Choose 1, Choose 1, Typed ?raw, YesNo True]))"
    by simp
  from v b c have vv: "descriptionValidator (StringAns ?raw) = None"
    "commitDescValidator (StringAns ?raw) = None" by simp_all
  from r have r': "\<exists>evs. review exampleLib exampleGit \<lparr>Abbreviation = ''ds''\<rparr>
               \<lparr>branchType = ''fix'', description = ''x'', ticketID = ''CLI-1''\<rparr>
               [Choose 2, Typed ?raw]
             = Again \<lparr>branchType = ''fix'', description = ''Add-login-page'', ticketID = ''CLI-1''\<rparr>
                 evs []"
    by simp
  from a b c vv r' br' co' show ?thesis by blast
qed

text \<open>
  Beyond ASCII the code's limit is one of bytes (\<^verbatim>\<open>len\<close>), while its messages and the
  specification speak of characters: sixteen times \<^verbatim>\<open>e\<close> with an acute accent are
  sixteen characters in 32 bytes, which the specification's function accepts and the
  validator of the branch description rejects.
\<close>

lemma description_limit_counts_bytes:
  "validateDescription_spec (concat (replicate 16 [CHR 0xC3, CHR 0xA9])) 30
     = Some (concat (replicate 16 [CHR 0xC3, CHR 0xA9]))
   \<and> descriptionValidator (StringAns (concat (replicate 16 [CHR 0xC3, CHR 0xA9])))
       = Some (Errorf ''description too long (max 30 characters after formatting)'')"
  by code_simp

section \<open>The directory of the configuration\<close>

lemma take_butlast_le:
  assumes "n \<le> length (butlast p)"
  shows "take n (butlast p) = take n p \<and> n \<le> length p"
proof (cases p rule: rev_cases)
  case Nil
  with assms show ?thesis by simp
next
  case (snoc xs x)
  with assms show ?thesis by simp
qed

lemma Mkdir_frame:
  assumes "Mkdir s p = (r, s')"
  shows "files s' = files s \<and> denied s' = denied s \<and> home s' = home s
         \<and> (r = None \<longrightarrow> dirs s' = p # dirs s) \<and> (r \<noteq> None \<longrightarrow> s' = s)"
  using assms by (auto simp: Mkdir_def split: if_splits)

lemma MkdirAll_unfold:
  assumes "\<not> isDir s p" "map_of (files s) p = None" "MkdirAll s (butlast p) = (r0, s0)"
  shows "MkdirAll s p = (case r0 of Some err \<Rightarrow> (Some err, s0) | None \<Rightarrow> Mkdir s0 p)"
  using assms by (subst MkdirAll.simps) (simp split: option.splits)

lemma MkdirAll_stop:
  assumes "isDir s p \<or> map_of (files s) p \<noteq> None"
  shows "snd (MkdirAll s p) = s"
  using assms by (subst MkdirAll.simps) auto

lemma grown_refl: "grown s p s"
  by (simp add: grown_def)

lemma grown_longer: "grown s (butlast p) s' \<Longrightarrow> grown s p s'"
  by (fastforce simp: grown_def)

lemma grown_Mkdir:
  assumes "grown s p s0" "Mkdir s0 p = (r, s')"
  shows "grown s p s'"
proof (cases r)
  case None
  with Mkdir_frame[OF assms(2)] have "files s' = files s0" "denied s' = denied s0"
    "home s' = home s0" "dirs s' = p # dirs s0" by simp_all
  with assms(1) show ?thesis by (auto simp: grown_def)
next
  case (Some e)
  with Mkdir_frame[OF assms(2)] have "s' = s0" by simp
  with assms(1) show ?thesis by simp
qed

lemma MkdirAll_grown: "grown s p (snd (MkdirAll s p))"
proof (induction s p rule: MkdirAll.induct)
  case (1 s p)
  show ?case
  proof (cases "isDir s p \<or> map_of (files s) p \<noteq> None")
    case True
    then show ?thesis by (simp add: MkdirAll_stop grown_refl)
  next
    case False
    then have nd: "\<not> isDir s p" and nf: "map_of (files s) p = None" by auto
    obtain r0 s0 where m: "MkdirAll s (butlast p) = (r0, s0)"
      by (cases "MkdirAll s (butlast p)") auto
    from "1.IH"[OF nd] nf m have "grown s (butlast p) s0" by simp
    then have g: "grown s p s0" by (rule grown_longer)
    show ?thesis
    proof (cases r0)
      case (Some err)
      with MkdirAll_unfold[OF nd nf m] g show ?thesis by simp
    next
      case None
      obtain r s' where k: "Mkdir s0 p = (r, s')" by (cases "Mkdir s0 p") auto
      with None MkdirAll_unfold[OF nd nf m] have "snd (MkdirAll s p) = s'" by simp
      with grown_Mkdir[OF g k] show ?thesis by simp
    qed
  qed
qed

lemma parent_not_made:
  assumes "\<not> isDir s p" "grown s (butlast p) s0"
  shows "p \<notin> set (dirs s0)"
proof
  assume a: "p \<in> set (dirs s0)"
  from assms(1) have ne: "p \<noteq> []" and nd: "p \<notin> set (dirs s)" by (auto simp: isDir_def)
  from a assms(2) nd have "length p \<le> length (butlast p)" by (auto simp: grown_def)
  with ne show False by (cases p rule: rev_cases) auto
qed

lemma MkdirAll_made:
  assumes "fst (MkdirAll s p) = None"
  shows "isDir (snd (MkdirAll s p)) p"
proof (cases "isDir s p")
  case True
  then show ?thesis by (simp add: MkdirAll_stop)
next
  case False
  show ?thesis
  proof (cases "map_of (files s) p = None")
    case nf: True
    obtain r0 s0 where m: "MkdirAll s (butlast p) = (r0, s0)"
      by (cases "MkdirAll s (butlast p)") auto
    obtain r s' where k: "Mkdir s0 p = (r, s')" by (cases "Mkdir s0 p") auto
    from assms MkdirAll_unfold[OF False nf m] k have "r0 = None" "r = None" "snd (MkdirAll s p) = s'"
      by (auto split: option.splits)
    with Mkdir_frame[OF k] show ?thesis by (simp add: isDir_def)
  next
    case False
    then have "fst (MkdirAll s p) \<noteq> None" using \<open>\<not> isDir s p\<close>
      by (subst MkdirAll.simps) auto
    with assms show ?thesis by simp
  qed
qed

lemma MkdirAll_parent:
  assumes "fst (MkdirAll s p) = None" "\<not> isDir s p"
  shows "isDir (snd (MkdirAll s p)) (butlast p)"
proof (cases "map_of (files s) p = None")
  case nf: True
  obtain r0 s0 where m: "MkdirAll s (butlast p) = (r0, s0)"
    by (cases "MkdirAll s (butlast p)") auto
  obtain r s' where k: "Mkdir s0 p = (r, s')" by (cases "Mkdir s0 p") auto
  from assms(1) MkdirAll_unfold[OF assms(2) nf m] k
  have r: "r0 = None" "r = None" "snd (MkdirAll s p) = s'"
    by (auto split: option.splits)
  from MkdirAll_made[of s "butlast p"] m r(1) have "isDir s0 (butlast p)" by simp
  moreover from Mkdir_frame[OF k] r(2) have "dirs s' = p # dirs s0" by simp
  ultimately show ?thesis using r(3) by (auto simp: isDir_def)
next
  case False
  with assms(2) have "fst (MkdirAll s p) \<noteq> None"
    by (subst MkdirAll.simps) auto
  with assms(1) show ?thesis by simp
qed

lemma MkdirAll_failed:
  assumes "fst (MkdirAll s p) \<noteq> None" and "\<not> isDir s p"
  shows "\<not> isDir (snd (MkdirAll s p)) p"
proof -
  from assms(2) have ne: "p \<noteq> []" by (auto simp: isDir_def)
  show ?thesis
  proof (cases "map_of (files s) p = None")
    case False
    then have "snd (MkdirAll s p) = s" by (simp add: MkdirAll_stop)
    with assms(2) show ?thesis by simp
  next
    case nf: True
    obtain r0 s0 where m: "MkdirAll s (butlast p) = (r0, s0)"
      by (cases "MkdirAll s (butlast p)") auto
    from MkdirAll_grown[of s "butlast p"] m have g: "grown s (butlast p) s0" by simp
    from parent_not_made[OF assms(2) g] have p0: "p \<notin> set (dirs s0)" .
    have "snd (MkdirAll s p) = s0"
    proof (cases r0)
      case (Some e)
      with MkdirAll_unfold[OF assms(2) nf m] show ?thesis by simp
    next
      case None
      obtain r s' where k: "Mkdir s0 p = (r, s')" by (cases "Mkdir s0 p") auto
      with None MkdirAll_unfold[OF assms(2) nf m] assms(1) have "r \<noteq> None" "snd (MkdirAll s p) = s'"
        by simp_all
      with Mkdir_frame[OF k] show ?thesis by simp
    qed
    with p0 ne show ?thesis by (simp add: isDir_def)
  qed
qed

lemma MkdirAll_succeeds:
  assumes "\<forall>n \<le> length p. \<not> isDir s (take n p) \<longrightarrow>
             take n p \<notin> set (denied s) \<and> map_of (files s) (take n p) = None"
  shows "fst (MkdirAll s p) = None"
  using assms
proof (induction s p rule: MkdirAll.induct)
  case (1 s p)
  show ?case
  proof (cases "isDir s p")
    case True
    then show ?thesis by (subst MkdirAll.simps) simp
  next
    case False
    then have ne: "p \<noteq> []" by (auto simp: isDir_def)
    from "1.prems"[rule_format, of "length p"] False
    have ok: "p \<notin> set (denied s)" "map_of (files s) p = None" by auto
    have sub: "\<forall>n \<le> length (butlast p). \<not> isDir s (take n (butlast p)) \<longrightarrow>
             take n (butlast p) \<notin> set (denied s) \<and> map_of (files s) (take n (butlast p)) = None"
    proof (intro allI impI)
      fix n assume n: "n \<le> length (butlast p)" and d: "\<not> isDir s (take n (butlast p))"
      with take_butlast_le[of n p] have e: "take n (butlast p) = take n p" "n \<le> length p"
        by simp_all
      with d "1.prems"[rule_format, of n]
      show "take n (butlast p) \<notin> set (denied s) \<and> map_of (files s) (take n (butlast p)) = None"
        by simp
    qed
    obtain r0 s0 where m: "MkdirAll s (butlast p) = (r0, s0)"
      by (cases "MkdirAll s (butlast p)") auto
    from "1.IH"[OF False _ sub] ok m have r0: "r0 = None" by simp
    from MkdirAll_made[of s "butlast p"] m r0 have parent: "isDir s0 (butlast p)" by simp
    from MkdirAll_grown[of s "butlast p"] m have g: "grown s (butlast p) s0" by simp
    from parent_not_made[OF False g] have "p \<notin> set (dirs s0)" .
    moreover from g ok have "p \<notin> set (denied s0)" "map_of (files s0) p = None"
      by (simp_all add: grown_def)
    ultimately have "fst (Mkdir s0 p) = None"
      using ne parent by (simp add: Mkdir_def isDir_def)
    with MkdirAll_unfold[OF False ok(2) m] r0 show ?thesis by simp
  qed
qed

text \<open>
  Claim C9, as stated, fails where the directory cannot be made: with the directory absent
  and its creation refused, \<^verbatim>\<open>loadConfig\<close> returns the error of \<^verbatim>\<open>MkdirAll\<close> and the
  directory is still absent; with no home directory known it returns before \<^verbatim>\<open>MkdirAll\<close>
  and the file system is as it was.
\<close>

theorem loadConfig_directory_not_created:
  "\<not> isDir refusedFs [''home'', ''u'', ''.git-helper-cli'']
   \<and> loadConfig exampleLib refusedFs =
       ((\<lparr>Abbreviation = ''''\<rparr>, Some (SyscallError ''EACCES'')), refusedFs)
   \<and> \<not> isDir (snd (loadConfig exampleLib refusedFs)) [''home'', ''u'', ''.git-helper-cli'']
   \<and> loadConfig exampleLib noHomeFs =
       ((\<lparr>Abbreviation = ''''\<rparr>, Some (Errorf ''$HOME is not defined'')), noHomeFs)
   \<and> dirs (snd (loadConfig exampleLib noHomeFs)) = [[''home''], [''home'', ''u'']]"
  by code_simp

lemma loadConfig_no_home:
  "home s = None \<Longrightarrow>
   loadConfig lib s = ((\<lparr>Abbreviation = ''''\<rparr>, Some (Errorf ''$HOME is not defined'')), s)"
  by (simp add: loadConfig_def configFilePath_def UserHomeDir_def)

lemma loadConfig_MkdirAll:
  assumes "home s = Some h"
  shows "snd (loadConfig lib s) = snd (MkdirAll s (Join h ''.git-helper-cli''))"
  using assms
  by (simp add: loadConfig_fs configFilePath_def UserHomeDir_def Let_def
      split: prod.splits option.splits)

lemma loadConfig_MkdirAll_error:
  assumes "home s = Some h" "fst (MkdirAll s (Join h ''.git-helper-cli'')) \<noteq> None"
  shows "fst (loadConfig lib s) =
           (\<lparr>Abbreviation = ''''\<rparr>, fst (MkdirAll s (Join h ''.git-helper-cli'')))"
  using assms
  by (auto simp: loadConfig_def configFilePath_def UserHomeDir_def Let_def
      split: prod.splits option.splits)

text \<open>
  Claim C9, amended. Without a home directory \<^verbatim>\<open>loadConfig\<close> returns the error and
  leaves the file system alone. With one, it leaves the file system as \<^verbatim>\<open>os.MkdirAll\<close> on
  the directory \<^verbatim>\<open>.git-helper-cli\<close> leaves it, whether a record is read or not: no file
  is touched and no directory is lost. When \<^verbatim>\<open>MkdirAll\<close> succeeds the directory is there
  afterwards, so a directory that was absent has been made, and the home directory is
  there with it; it succeeds whenever no path on the way that has to be made is a file or
  refused. When \<^verbatim>\<open>MkdirAll\<close> fails, \<^verbatim>\<open>loadConfig\<close> returns its error and an absent
  directory stays absent. show-config and create-branch leave the file system as
  \<^verbatim>\<open>loadConfig\<close> does.
\<close>

theorem loadConfig_creates_directory:
  "(home s = None \<longrightarrow>
      loadConfig lib s = ((\<lparr>Abbreviation = ''''\<rparr>, Some (Errorf ''$HOME is not defined'')), s))
   \<and> (home s = Some h \<longrightarrow>
        snd (loadConfig lib s) = snd (MkdirAll s (Join h ''.git-helper-cli''))
        \<and> files (snd (loadConfig lib s)) = files s
        \<and> set (dirs s) \<subseteq> set (dirs (snd (loadConfig lib s)))
        \<and> (fst (MkdirAll s (Join h ''.git-helper-cli'')) = None \<longrightarrow>
             isDir (snd (loadConfig lib s)) (Join h ''.git-helper-cli'')
             \<and> (\<not> isDir s (Join h ''.git-helper-cli'') \<longrightarrow>
                  snd (loadConfig lib s) \<noteq> s \<and> isDir (snd (loadConfig lib s)) h))
        \<and> (fst (MkdirAll s (Join h ''.git-helper-cli'')) \<noteq> None \<longrightarrow>
             fst (loadConfig lib s) =
               (\<lparr>Abbreviation = ''''\<rparr>, fst (MkdirAll s (Join h ''.git-helper-cli'')))
             \<and> (\<not> isDir s (Join h ''.git-helper-cli'') \<longrightarrow>
                  \<not> isDir (snd (loadConfig lib s)) (Join h ''.git-helper-cli'')))
        \<and> ((\<forall>n \<le> length (Join h ''.git-helper-cli'').
               \<not> isDir s (take n (Join h ''.git-helper-cli'')) \<longrightarrow>
               take n (Join h ''.git-helper-cli'') \<notin> set (denied s)
               \<and> map_of (files s) (take n (Join h ''.git-helper-cli'')) = None) \<longrightarrow>
             fst (MkdirAll s (Join h ''.git-helper-cli'')) = None))
   \<and> snd (showConfigCmd lib s) = snd (loadConfig lib s)
   \<and> snd (createBranchCmd lib git s ins) = snd (loadConfig lib s)"
proof (intro conjI impI)
  let ?cd = "Join h ''.git-helper-cli''"
  show "loadConfig lib s = ((\<lparr>Abbreviation = ''''\<rparr>, Some (Errorf ''$HOME is not defined'')), s)"
    if "home s = None" using that by (rule loadConfig_no_home)
  show m: "snd (loadConfig lib s) = snd (MkdirAll s ?cd)" if "home s = Some h"
    using that by (rule loadConfig_MkdirAll)
  show "files (snd (loadConfig lib s)) = files s" if "home s = Some h"
    using m[OF that] MkdirAll_grown[of s ?cd] by (simp add: grown_def)
  show "set (dirs s) \<subseteq> set (dirs (snd (loadConfig lib s)))" if "home s = Some h"
    using m[OF that] MkdirAll_grown[of s ?cd] by (simp add: grown_def)
  show d: "isDir (snd (loadConfig lib s)) ?cd" if "home s = Some h" "fst (MkdirAll s ?cd) = None"
    using m[OF that(1)] MkdirAll_made[OF that(2)] by simp
  show "snd (loadConfig lib s) \<noteq> s"
    if "home s = Some h" "fst (MkdirAll s ?cd) = None" "\<not> isDir s ?cd"
    using d[OF that(1,2)] that(3) by auto
  show "isDir (snd (loadConfig lib s)) h"
    if "home s = Some h" "fst (MkdirAll s ?cd) = None" "\<not> isDir s ?cd"
    using m[OF that(1)] MkdirAll_parent[OF that(2,3)] by (simp add: Join_def)
  show "fst (loadConfig lib s) = (\<lparr>Abbreviation = ''''\<rparr>, fst (MkdirAll s ?cd))"
    if "home s = Some h" "fst (MkdirAll s ?cd) \<noteq> None"
    using that by (rule loadConfig_MkdirAll_error)
  show "\<not> isDir (snd (loadConfig lib s)) ?cd"
    if "home s = Some h" "fst (MkdirAll s ?cd) \<noteq> None" "\<not> isDir s ?cd"
    using m[OF that(1)] MkdirAll_failed[OF that(2,3)] by simp
  show "fst (MkdirAll s ?cd) = None"
    if "\<forall>n \<le> length ?cd. \<not> isDir s (take n ?cd) \<longrightarrow>
               take n ?cd \<notin> set (denied s) \<and> map_of (files s) (take n ?cd) = None"
    using that by (rule MkdirAll_succeeds)
  show "snd (showConfigCmd lib s) = snd (loadConfig lib s)" by (rule showConfigCmd_fs)
  show "snd (createBranchCmd lib git s ins) = snd (loadConfig lib s)" by (rule createBranchCmd_fs)
qed

text \<open>
  The theorem with no home directory, with a home directory that has yet to be made,
  with the creation refused, and on the fresh home directory.
\<close>

theorem loadConfig_creates_directory_witness:
  "home noHomeFs = None
   \<and> loadConfig exampleLib noHomeFs =
       ((\<lparr>Abbreviation = ''''\<rparr>, Some (Errorf ''$HOME is not defined'')), noHomeFs)
   \<and> home bareFs = Some [''home'', ''u'']
   \<and> fst (MkdirAll bareFs [''home'', ''u'', ''.git-helper-cli'']) = None
   \<and> \<not> isDir bareFs [''home'', ''u'', ''.git-helper-cli'']
   \<and> isDir (snd (loadConfig exampleLib bareFs)) [''home'', ''u'', ''.git-helper-cli'']
   \<and> isDir (snd (loadConfig exampleLib bareFs)) [''home'', ''u'']
   \<and> snd (loadConfig exampleLib bareFs) \<noteq> bareFs
   \<and> snd (showConfigCmd exampleLib bareFs) \<noteq> bareFs
   \<and> snd (createBranchCmd exampleLib exampleGit bareFs []) \<noteq> bareFs
   \<and> fst (MkdirAll refusedFs [''home'', ''u'', ''.git-helper-cli'']) \<noteq> None
   \<and> \<not> isDir (snd (loadConfig exampleLib refusedFs)) [''home'', ''u'', ''.git-helper-cli'']
   \<and> fst (MkdirAll freshFs [''home'', ''u'', ''.git-helper-cli'']) = None"
proof -
  let ?cd = "[''home'', ''u'', ''.git-helper-cli'']"
  have j: "Join [''home'', ''u''] ''.git-helper-cli'' = ?cd" by (simp add: Join_def)
  have h0: "home noHomeFs = None" by (simp add: noHomeFs_def freshFs_def)
  have h1: "home bareFs = Some [''home'', ''u'']" by (simp add: bareFs_def)
  have h2: "home refusedFs = Some [''home'', ''u'']" by (simp add: refusedFs_def freshFs_def)
  have h3: "home freshFs = Some [''home'', ''u'']" by (simp add: freshFs_def)
  have m1: "fst (MkdirAll bareFs ?cd) = None" by code_simp
  have n1: "\<not> isDir bareFs ?cd" by (simp add: bareFs_def isDir_def)
  have m2: "fst (MkdirAll refusedFs ?cd) \<noteq> None" by code_simp
  have n2: "\<not> isDir refusedFs ?cd" by (simp add: refusedFs_def freshFs_def isDir_def)
  have p3: "\<forall>n \<le> length ?cd. \<not> isDir freshFs (take n ?cd) \<longrightarrow>
         take n ?cd \<notin> set (denied freshFs) \<and> map_of (files freshFs) (take n ?cd) = None"
    by (simp add: freshFs_def)
  note t0 = loadConfig_creates_directory[of noHomeFs exampleLib "[''home'', ''u'']" exampleGit "[]"]
  note t1 = loadConfig_creates_directory[of bareFs exampleLib "[''home'', ''u'']" exampleGit "[]",
      unfolded j]
  note t2 = loadConfig_creates_directory[of refusedFs exampleLib "[''home'', ''u'']" exampleGit "[]",
      unfolded j]
  note t3 = loadConfig_creates_directory[of freshFs exampleLib "[''home'', ''u'']" exampleGit "[]",
      unfolded j]
  from t0 h0 have a: "loadConfig exampleLib noHomeFs =
       ((\<lparr>Abbreviation = ''''\<rparr>, Some (Errorf ''$HOME is not defined'')), noHomeFs)" by blast
  from t1 h1 m1 n1 have b: "isDir (snd (loadConfig exampleLib bareFs)) ?cd"
    "isDir (snd (loadConfig exampleLib bareFs)) [''home'', ''u'']"
    "snd (loadConfig exampleLib bareFs) \<noteq> bareFs"
    "snd (showConfigCmd exampleLib bareFs) = snd (loadConfig exampleLib bareFs)"
    "snd (createBranchCmd exampleLib exampleGit bareFs []) = snd (loadConfig exampleLib bareFs)"
    by blast+
  from t2 h2 m2 n2 have c: "\<not> isDir (snd (loadConfig exampleLib refusedFs)) ?cd" by blast
  from t3 h3 p3 have d: "fst (MkdirAll freshFs ?cd) = None" by blast
  from h0 a h1 m1 n1 b m2 c d show ?thesis by simp
qed

end
